theory Spec2Isabelle
  imports Complex_Main
begin

section \<open>Go runtime: panics, integer division, slicing\<close>

text \<open>
  Go's \<open>int\<close> is modelled as \<open>int\<close>. The planner only adds a slice length and
  small configuration constants, so no sum leaves the 64-bit range for any slice that fits in
  memory; the requested droplet count (any 64-bit value) is only compared, never computed with.
  Every run-time panic the planner can raise is a value of type \<open>panic\<close>.
\<close>

datatype panic = DivideByZero | MakeSliceLenOutOfRange | SliceBoundsOutOfRange

text \<open>Sequencing of computations that may panic.\<close>

definition bindp :: "panic + 'a \<Rightarrow> ('a \<Rightarrow> panic + 'b) \<Rightarrow> panic + 'b" where
  "bindp m f = (case m of Inl e \<Rightarrow> Inl e | Inr x \<Rightarrow> f x)"

text \<open>Go's \<open>/\<close> and \<open>%\<close> on \<open>int\<close>: truncation towards zero, panic on a zero divisor.\<close>

definition go_div :: "int \<Rightarrow> int \<Rightarrow> panic + int" where
  "go_div a b = (if b = 0 then Inl DivideByZero else Inr (sgn a * sgn b * (\<bar>a\<bar> div \<bar>b\<bar>)))"

definition go_mod :: "int \<Rightarrow> int \<Rightarrow> panic + int" where
  "go_mod a b = (if b = 0 then Inl DivideByZero else Inr (sgn a * (\<bar>a\<bar> mod \<bar>b\<bar>)))"

text \<open>
  The slice expression \<open>xs[lo:hi]\<close>. Go bounds \<open>hi\<close> by the capacity; the model bounds it
  by the length, which is at most the capacity. \<open>createChunks\<close> clamps \<open>hi\<close> to the length
  before slicing, so the two bounds never differ there.
\<close>

definition go_slice :: "'a list \<Rightarrow> int \<Rightarrow> int \<Rightarrow> panic + 'a list" where
  "go_slice xs lo hi =
     (if 0 \<le> lo \<and> lo \<le> hi \<and> hi \<le> int (length xs)
      then Inr (take (nat (hi - lo)) (drop (nat lo) xs))
      else Inl SliceBoundsOutOfRange)"

section \<open>Distribution planner (package orchestrator, ScanOptimizer)\<close>

record ScanOptimizer =
  MaxDomainsPerDroplet :: int
  MinDomainsPerDroplet :: int
  MaxDroplets :: int
  MinDroplets :: int

definition NewScanOptimizer :: ScanOptimizer where
  "NewScanOptimizer =
     \<lparr> MaxDomainsPerDroplet = 500, MinDomainsPerDroplet = 50, MaxDroplets = 5, MinDroplets = 1 \<rparr>"

definition calculateOptimalDroplets :: "ScanOptimizer \<Rightarrow> int \<Rightarrow> int \<Rightarrow> panic + int" where
  "calculateOptimalDroplets so totalDomains requestedDroplets =
     (let optimalDroplets = requestedDroplets;
          optimalDroplets =
            (if optimalDroplets > MaxDroplets so then MaxDroplets so else optimalDroplets);
          optimalDroplets =
            (if optimalDroplets < MinDroplets so then MinDroplets so else optimalDroplets)
      in bindp (go_div totalDomains optimalDroplets) (\<lambda>domainsPerDroplet.
         bindp (if domainsPerDroplet > MaxDomainsPerDroplet so
                then bindp (go_div (totalDomains + MaxDomainsPerDroplet so - 1)
                                   (MaxDomainsPerDroplet so))
                       (\<lambda>optimalDroplets.
                          Inr (if optimalDroplets > MaxDroplets so then MaxDroplets so
                               else optimalDroplets))
                else Inr optimalDroplets) (\<lambda>optimalDroplets.
         if totalDomains > MinDomainsPerDroplet so
         then bindp (go_div totalDomains optimalDroplets) (\<lambda>domainsPerDroplet.
                if domainsPerDroplet < MinDomainsPerDroplet so
                then bindp (go_div totalDomains (MinDomainsPerDroplet so))
                       (\<lambda>optimalDroplets.
                          Inr (if optimalDroplets < MinDroplets so then MinDroplets so
                               else optimalDroplets))
                else Inr optimalDroplets)
         else Inr optimalDroplets)))"

text \<open>
  The loop of \<open>createChunks\<close>: \<open>i\<close> counts up to \<open>numDroplets\<close>, \<open>start\<close> is the
  running offset, \<open>chunks\<close> the array allocated by \<open>make\<close> and filled by index.
\<close>

function createChunks_loop ::
  "string list \<Rightarrow> int \<Rightarrow> int \<Rightarrow> int \<Rightarrow> int \<Rightarrow> int \<Rightarrow> string list list
     \<Rightarrow> panic + string list list" where
  "createChunks_loop domains numDroplets baseChunkSize extraDomains i start chunks =
     (if i < numDroplets then
        (let totalDomains = int (length domains);
             chunkSize = (if i < extraDomains then baseChunkSize + 1 else baseChunkSize);
             end = start + chunkSize;
             end = (if end > totalDomains then totalDomains else end)
         in bindp (go_slice domains start end) (\<lambda>chunk.
              createChunks_loop domains numDroplets baseChunkSize extraDomains (i + 1) end
                (chunks[nat i := chunk])))
      else Inr chunks)"
  by pat_completeness auto
termination
  by (relation "measure (\<lambda>(domains, numDroplets, baseChunkSize, extraDomains, i, start, chunks).
        nat (numDroplets - i))") auto

definition createChunks :: "string list \<Rightarrow> int \<Rightarrow> panic + string list list" where
  "createChunks domains numDroplets =
     (let totalDomains = int (length domains)
      in bindp (go_div totalDomains numDroplets) (\<lambda>baseChunkSize.
         bindp (go_mod totalDomains numDroplets) (\<lambda>extraDomains.
         if numDroplets < 0 then Inl MakeSliceLenOutOfRange
         else createChunks_loop domains numDroplets baseChunkSize extraDomains 0 0
                (replicate (nat numDroplets) []))))"

definition OptimizeDistribution ::
  "ScanOptimizer \<Rightarrow> string list \<Rightarrow> int \<Rightarrow> panic + (int \<times> string list list)" where
  "OptimizeDistribution so domains requestedDroplets =
     (let totalDomains = int (length domains)
      in if totalDomains = 0 then Inr (0, [])
         else bindp (calculateOptimalDroplets so totalDomains requestedDroplets)
                (\<lambda>optimalDroplets.
                   bindp (createChunks domains optimalDroplets) (\<lambda>chunks.
                     Inr (optimalDroplets, chunks))))"


text \<open>
  The three stages of \<open>calculateOptimalDroplets\<close> at the default settings, as plain
  integer functions (used to state what the code returns): the clamp to
  \<open>[MinDroplets, MaxDroplets]\<close>, the raise when the average exceeds
  \<open>MaxDomainsPerDroplet\<close>, and the lowering when it falls below
  \<open>MinDomainsPerDroplet\<close>.
\<close>

definition clamp_default :: "int \<Rightarrow> int" where
  "clamp_default r = (if (if r > 5 then 5 else r) < 1 then 1 else (if r > 5 then 5 else r))"

definition raise_default :: "int \<Rightarrow> int \<Rightarrow> int" where
  "raise_default t n1 =
     (if t div n1 > 500 then (if (t + 500 - 1) div 500 > 5 then 5 else (t + 500 - 1) div 500) else n1)"

definition lower_default :: "int \<Rightarrow> int \<Rightarrow> int" where
  "lower_default t n2 =
     (if t > 50 then (if t div n2 < 50 then (if t div 50 < 1 then 1 else t div 50) else n2) else n2)"

section \<open>Data model (package types)\<close>

text \<open>
  \<open>time.Time\<close> values are abstract instants. Go's \<open>float64\<close> is modelled by the real
  numbers it denotes: every finite \<open>float64\<close> is a real, comparisons and the literals
  \<open>0\<close> and \<open>100.0\<close> are exact, and each arithmetic operation returns the rounding
  \<open>rnd\<close> of the exact result. The rounding function is a parameter of every operation that
  computes with floats, so nothing proved depends on how \<open>float64\<close> rounds; infinities and
  NaN (which JSON bodies cannot carry) are not modelled.
\<close>

type_synonym time = nat

definition fadd :: "(real \<Rightarrow> real) \<Rightarrow> real \<Rightarrow> real \<Rightarrow> real" where
  "fadd rnd a b = rnd (a + b)"

definition fmul :: "(real \<Rightarrow> real) \<Rightarrow> real \<Rightarrow> real \<Rightarrow> real" where
  "fmul rnd a b = rnd (a * b)"

definition fdiv :: "(real \<Rightarrow> real) \<Rightarrow> real \<Rightarrow> real \<Rightarrow> real" where
  "fdiv rnd a b = rnd (a / b)"

text \<open>
  The conversions \<open>float64(i)\<close> and \<open>int(x)\<close>; the latter truncates towards zero (Go
  leaves the result open when the value does not fit into an \<open>int\<close>; the model truncates
  all the same).
\<close>

definition float64_of_int :: "(real \<Rightarrow> real) \<Rightarrow> int \<Rightarrow> real" where
  "float64_of_int rnd i = rnd (real_of_int i)"

definition int_of_float64 :: "real \<Rightarrow> int" where
  "int_of_float64 x = (if 0 \<le> x then \<lfloor>x\<rfloor> else \<lceil>x\<rceil>)"

record ScanRequest =
  reqID :: string
  Domains :: "string list"
  Droplets :: int
  reqStatus :: string

record Log =
  logTimestamp :: time
  logMessage :: string
  logType :: string
  logWorkerID :: string

record WorkerStatus =
  wID :: string
  wIP :: string
  wProgress :: real
  wCurrentDomain :: string
  wDomainsScanned :: int
  wTotalDomains :: int
  wLogs :: "Log list"
  wCreatedAt :: time
  wStatus :: string

record ScanResult =
  resHost :: string
  resTemplate :: string
  resSeverity :: string
  resMatch :: string
  resTimestamp :: time
  resWorkerID :: string

record ScanStatus =
  scanID :: string
  scanProgress :: real
  ActiveDroplets :: "WorkerStatus list"
  Results :: "ScanResult list"
  scanTotalDomains :: int
  ScannedDomains :: int
  scanStatus :: string

text \<open>
  The \<open>Data\<close> field of a \<open>WebSocketMessage\<close> is an \<open>interface{}\<close>; the handlers store
  a scan status, a scan result or a string in it. (Go stores the status by pointer and serialises
  it when the message is written; the model carries the value at the time of publication.)
\<close>

datatype ws_data = StatusData ScanStatus | ResultData ScanResult | StringData string

record WebSocketMessage =
  wsType :: string
  wsData :: ws_data

section \<open>Orchestrator (package orchestrator)\<close>

text \<open>
  The registry \<open>activeScans\<close> maps a scan ID to its status. All methods below run under the
  orchestrator's mutex, so each is one atomic step on the registry. Every \<open>*ScanStatus\<close> is
  stored under one key and every \<open>*WorkerStatus\<close> in one list, so the pointers are modelled
  by the values they point to.
\<close>

record Orchestrator =
  activeScans :: "string \<rightharpoonup> ScanStatus"
  mainServerIP :: string

definition New :: "string \<Rightarrow> Orchestrator" where
  "New ip = \<lparr> activeScans = Map.empty, mainServerIP = ip \<rparr>"

text \<open>
  \<open>StartScan\<close>: \<open>newID\<close> is the string \<open>uuid.New().String()\<close> would return. The result
  carries the (always nil) error, the registry, the request as the caller sees it afterwards
  (its ID is assigned through the pointer) and the provisioning tasks launched as goroutines,
  one per chunk with its index.
\<close>

definition StartScan ::
  "Orchestrator \<Rightarrow> ScanRequest \<Rightarrow> string
     \<Rightarrow> panic + (string option \<times> Orchestrator \<times> ScanRequest \<times> (nat \<times> string list) list)" where
  "StartScan orch req newID =
     (let req = (if reqID req = [] then req\<lparr>reqID := newID\<rparr> else req);
          optimizer = NewScanOptimizer
      in bindp (OptimizeDistribution optimizer (Domains req) (Droplets req))
           (\<lambda>(numDroplets, chunks).
              let orch = orch\<lparr>activeScans := (activeScans orch)(reqID req \<mapsto>
                    \<lparr> scanID = reqID req, scanProgress = 0, ActiveDroplets = [], Results = [],
                      scanTotalDomains = int (length (Domains req)), ScannedDomains = 0,
                      scanStatus = ''starting'' \<rparr>)\<rparr>
              in Inr (None, orch, req, enumerate 0 chunks)))"

text \<open>
  The critical section of \<open>waitForWorker\<close>, run once the droplet is active and has the
  address \<open>ip\<close>: the worker is appended to the scan if the scan is still registered.
\<close>

definition waitForWorker_register ::
  "Orchestrator \<Rightarrow> string \<Rightarrow> string \<Rightarrow> string \<Rightarrow> int \<Rightarrow> time \<Rightarrow> Orchestrator" where
  "waitForWorker_register orch scan_id workerID ip totalDomains now =
     (case activeScans orch scan_id of
        Some scan \<Rightarrow>
          let worker = \<lparr> wID = workerID, wIP = ip, wProgress = 0, wCurrentDomain = [],
                         wDomainsScanned = 0, wTotalDomains = totalDomains, wLogs = [],
                         wCreatedAt = now, wStatus = ''starting'' \<rparr>
          in orch\<lparr>activeScans := (activeScans orch)(scan_id \<mapsto>
                 scan\<lparr>ActiveDroplets := ActiveDroplets scan @ [worker]\<rparr>)\<rparr>
      | None \<Rightarrow> orch)"

definition GetScanStatus :: "Orchestrator \<Rightarrow> string \<Rightarrow> string + ScanStatus" where
  "GetScanStatus orch scan_id =
     (case activeScans orch scan_id of
        Some status \<Rightarrow> Inr status
      | None \<Rightarrow> Inl ''scan not found'')"

text \<open>
  The first loop of \<open>UpdateWorkerProgress\<close>: the first worker with the given ID is updated,
  then the loop breaks.
\<close>

fun update_worker ::
  "(real \<Rightarrow> real) \<Rightarrow> string \<Rightarrow> real \<Rightarrow> string \<Rightarrow> WorkerStatus list \<Rightarrow> WorkerStatus list" where
  "update_worker rnd workerID progress currentDomain [] = []"
| "update_worker rnd workerID progress currentDomain (worker # workers) =
     (if wID worker = workerID
      then worker\<lparr> wProgress := progress, wCurrentDomain := currentDomain,
                    wDomainsScanned :=
                      int_of_float64
                        (fdiv rnd (fmul rnd (float64_of_int rnd (wTotalDomains worker)) progress) 100) \<rparr>
           # workers
      else worker # update_worker rnd workerID progress currentDomain workers)"

text \<open>The second loop: \<open>totalProgress += worker.Progress\<close> over the workers, in order.\<close>

fun sum_progress :: "(real \<Rightarrow> real) \<Rightarrow> real \<Rightarrow> WorkerStatus list \<Rightarrow> real" where
  "sum_progress rnd totalProgress [] = totalProgress"
| "sum_progress rnd totalProgress (worker # workers) =
     sum_progress rnd (fadd rnd totalProgress (wProgress worker)) workers"

definition UpdateWorkerProgress ::
  "(real \<Rightarrow> real) \<Rightarrow> Orchestrator \<Rightarrow> string \<Rightarrow> string \<Rightarrow> real \<Rightarrow> string \<Rightarrow> Orchestrator" where
  "UpdateWorkerProgress rnd orch scan_id workerID progress currentDomain =
     (case activeScans orch scan_id of
        Some scan \<Rightarrow>
          let scan = scan\<lparr>ActiveDroplets :=
                       update_worker rnd workerID progress currentDomain (ActiveDroplets scan)\<rparr>;
              totalProgress = sum_progress rnd 0 (ActiveDroplets scan);
              scan = (if length (ActiveDroplets scan) > 0
                      then scan\<lparr>scanProgress :=
                             fdiv rnd totalProgress
                               (float64_of_int rnd (int (length (ActiveDroplets scan))))\<rparr>
                      else scan)
          in orch\<lparr>activeScans := (activeScans orch)(scan_id \<mapsto> scan)\<rparr>
      | None \<Rightarrow> orch)"

definition AddResult :: "Orchestrator \<Rightarrow> string \<Rightarrow> ScanResult \<Rightarrow> Orchestrator" where
  "AddResult orch scan_id result =
     (case activeScans orch scan_id of
        Some scan \<Rightarrow>
          orch\<lparr>activeScans := (activeScans orch)(scan_id \<mapsto>
            scan\<lparr>Results := Results scan @ [result], ScannedDomains := ScannedDomains scan + 1\<rparr>)\<rparr>
      | None \<Rightarrow> orch)"

text \<open>
  The droplet service of the cloud provider (the \<open>godo\<close> client) is outside the repository.
  Its state is a type parameter \<open>'p\<close>; the two calls \<open>CleanupScan\<close> makes are parameters:
  \<open>ListByTag\<close> returns the droplets with a tag, or \<open>None\<close> for an error, and
  \<open>Delete\<close> destroys a droplet by its ID.
\<close>

record Droplet =
  dropletID :: int
  dropletName :: string

record 'p DropletsService =
  ListByTag :: "'p \<Rightarrow> string \<Rightarrow> Droplet list option"
  Delete :: "'p \<Rightarrow> int \<Rightarrow> 'p"

text \<open>\<open>strings.Contains s substr\<close>: \<open>substr\<close> occurs in \<open>s\<close>.\<close>

fun strings_Contains :: "string \<Rightarrow> string \<Rightarrow> bool" where
  "strings_Contains [] substr = (substr = [])"
| "strings_Contains (c # s) substr =
     (take (length substr) (c # s) = substr \<or> strings_Contains s substr)"

text \<open>The inner loop of \<open>CleanupScan\<close> over the droplets listed for one worker.\<close>

fun destroy_droplets :: "'p DropletsService \<Rightarrow> WorkerStatus \<Rightarrow> Droplet list \<Rightarrow> 'p \<Rightarrow> 'p" where
  "destroy_droplets svc worker [] p = p"
| "destroy_droplets svc worker (droplet # droplets) p =
     destroy_droplets svc worker droplets
       (if strings_Contains (dropletName droplet) (wID worker)
        then Delete svc p (dropletID droplet) else p)"

text \<open>The outer loop over the workers of the scan.\<close>

fun destroy_workers :: "'p DropletsService \<Rightarrow> string \<Rightarrow> WorkerStatus list \<Rightarrow> 'p \<Rightarrow> 'p" where
  "destroy_workers svc scan_id [] p = p"
| "destroy_workers svc scan_id (worker # workers) p =
     destroy_workers svc scan_id workers
       (case ListByTag svc p scan_id of
          Some droplets \<Rightarrow> destroy_droplets svc worker droplets p
        | None \<Rightarrow> p)"

text \<open>\<open>CleanupScan\<close> returns its error (always nil), the registry and the provider's state.\<close>

definition CleanupScan ::
  "'p DropletsService \<Rightarrow> Orchestrator \<times> 'p \<Rightarrow> string \<Rightarrow> string option \<times> Orchestrator \<times> 'p" where
  "CleanupScan svc st scan_id =
     (case st of (orch, p) \<Rightarrow>
        (case activeScans orch scan_id of
           Some scan \<Rightarrow>
             (None, orch\<lparr>activeScans := (activeScans orch)(scan_id := None)\<rparr>,
              destroy_workers svc scan_id (ActiveDroplets scan) p)
         | None \<Rightarrow> (None, orch, p)))"

text \<open>
  The registries an orchestrator can reach from \<open>New\<close>: each rule is the effect on
  \<open>activeScans\<close> of one of the code's critical sections. \<open>complete\<close> is the write
  \<open>status.Status = "completed"\<close> that the handler \<open>CompleteWorker\<close> makes through the
  pointer it got from \<open>GetScanStatus\<close>; \<open>cleanup\<close> is the \<open>delete\<close> of
  \<open>CleanupScan\<close>.
\<close>

inductive reachable :: "(real \<Rightarrow> real) \<Rightarrow> Orchestrator \<Rightarrow> bool" for rnd :: "real \<Rightarrow> real" where
  init: "reachable rnd (New ip)"
| start: "reachable rnd orch \<Longrightarrow> StartScan orch req newID = Inr (err, orch', req', tasks)
            \<Longrightarrow> reachable rnd orch'"
| register: "reachable rnd orch
            \<Longrightarrow> reachable rnd (waitForWorker_register orch scan_id workerID ip totalDomains now)"
| progress: "reachable rnd orch
            \<Longrightarrow> reachable rnd (UpdateWorkerProgress rnd orch scan_id workerID progress currentDomain)"
| result: "reachable rnd orch \<Longrightarrow> reachable rnd (AddResult orch scan_id res)"
| complete: "reachable rnd orch \<Longrightarrow> activeScans orch scan_id = Some scan
            \<Longrightarrow> reachable rnd (orch\<lparr>activeScans := (activeScans orch)(scan_id \<mapsto>
                   scan\<lparr>scanStatus := ''completed''\<rparr>)\<rparr>)"
| cleanup: "reachable rnd orch
            \<Longrightarrow> reachable rnd (orch\<lparr>activeScans := (activeScans orch)(scan_id := None)\<rparr>)"

text \<open>
  The arithmetic mean of a list of progress values in the spec's words: their sum divided by
  their number, computed in floating point (the sum from left to right). With exact arithmetic
  (\<open>rnd\<close> the identity) it is \<open>sum_list xs / length xs\<close>.
\<close>

definition arithmetic_mean :: "(real \<Rightarrow> real) \<Rightarrow> real list \<Rightarrow> real" where
  "arithmetic_mean rnd xs =
     fdiv rnd (foldl (fadd rnd) 0 xs) (float64_of_int rnd (int (length xs)))"

section \<open>WebSocket manager (package api)\<close>

text \<open>
  A \<open>*websocket.Conn\<close> is modelled by its identity, and the \<open>map[*websocket.Conn]bool\<close>
  of a scan (only \<open>true\<close> is ever stored) by the set of its keys. A channel is an object
  that outlives its entry in the \<open>broadcast\<close> map (the dispatching goroutine still holds
  it), so the channels live in a store \<open>chans\<close>, indexed by references, and \<open>broadcast\<close>
  maps a scan ID to a reference; \<open>nextChan\<close> is the next unused reference. The goroutine
  \<open>handleBroadcast\<close>, which drains a channel and writes to the connections, is not part of
  the model. All methods run under the manager's mutex.
\<close>

type_synonym conn = nat

record Chan =
  chBuf :: "WebSocketMessage list"
  chClosed :: bool

record WebSocketManager =
  clients :: "string \<rightharpoonup> conn set"
  broadcast :: "string \<rightharpoonup> nat"
  chans :: "nat \<Rightarrow> Chan"
  nextChan :: nat

datatype chan_panic = CloseOfNilChannel | CloseOfClosedChannel | SendOnClosedChannel

definition NewWebSocketManager :: WebSocketManager where
  "NewWebSocketManager =
     \<lparr> clients = Map.empty, broadcast = Map.empty,
       chans = (\<lambda>r. \<lparr> chBuf = [], chClosed = False \<rparr>), nextChan = 0 \<rparr>"

definition RegisterClient :: "WebSocketManager \<Rightarrow> string \<Rightarrow> conn \<Rightarrow> WebSocketManager" where
  "RegisterClient wsm scan_id c =
     (let wsm = (if clients wsm scan_id = None
                 then wsm\<lparr> clients := (clients wsm)(scan_id \<mapsto> {}),
                           broadcast := (broadcast wsm)(scan_id \<mapsto> nextChan wsm),
                           chans := (chans wsm)(nextChan wsm := \<lparr> chBuf = [], chClosed = False \<rparr>),
                           nextChan := nextChan wsm + 1 \<rparr>
                 else wsm);
          cs = (case clients wsm scan_id of Some cs \<Rightarrow> cs | None \<Rightarrow> {})
      in wsm\<lparr> clients := (clients wsm)(scan_id \<mapsto> insert c cs) \<rparr>)"

text \<open>\<open>close(ch)\<close> on the channel a map entry holds; a missing entry is the nil channel.\<close>

definition close_chan :: "WebSocketManager \<Rightarrow> nat option \<Rightarrow> chan_panic + WebSocketManager" where
  "close_chan wsm ch =
     (case ch of
        None \<Rightarrow> Inl CloseOfNilChannel
      | Some r \<Rightarrow>
          if chClosed (chans wsm r) then Inl CloseOfClosedChannel
          else Inr (wsm\<lparr> chans := (chans wsm)(r := (chans wsm r)\<lparr> chClosed := True \<rparr>) \<rparr>))"

definition UnregisterClient ::
  "WebSocketManager \<Rightarrow> string \<Rightarrow> conn \<Rightarrow> chan_panic + WebSocketManager" where
  "UnregisterClient wsm scan_id c =
     (case clients wsm scan_id of
        Some cs \<Rightarrow>
          if c \<in> cs then
            (let cs = cs - {c};
                 wsm = wsm\<lparr> clients := (clients wsm)(scan_id \<mapsto> cs) \<rparr>
             in if cs = {} then
                  (case close_chan wsm (broadcast wsm scan_id) of
                     Inl e \<Rightarrow> Inl e
                   | Inr wsm \<Rightarrow>
                       Inr (wsm\<lparr> clients := (clients wsm)(scan_id := None),
                                  broadcast := (broadcast wsm)(scan_id := None) \<rparr>))
                else Inr wsm)
          else Inr wsm
      | None \<Rightarrow> Inr wsm)"

text \<open>
  The non-blocking send \<open>select { case ch <- message: default: }\<close> on a channel of capacity
  100: it panics on a closed channel, enqueues when there is room, and drops the message (after
  logging) otherwise.
\<close>

definition try_send :: "Chan \<Rightarrow> WebSocketMessage \<Rightarrow> chan_panic + Chan" where
  "try_send ch message =
     (if chClosed ch then Inl SendOnClosedChannel
      else if length (chBuf ch) < 100 then Inr (ch\<lparr> chBuf := chBuf ch @ [message] \<rparr>)
      else Inr ch)"

definition BroadcastToScan ::
  "WebSocketManager \<Rightarrow> string \<Rightarrow> WebSocketMessage \<Rightarrow> chan_panic + WebSocketManager" where
  "BroadcastToScan wsm scan_id message =
     (case broadcast wsm scan_id of
        Some r \<Rightarrow>
          (case try_send (chans wsm r) message of
             Inl e \<Rightarrow> Inl e
           | Inr ch \<Rightarrow> Inr (wsm\<lparr> chans := (chans wsm)(r := ch) \<rparr>))
      | None \<Rightarrow> Inr wsm)"

text \<open>Publishing a sequence of messages to one scan, one after the other.\<close>

fun broadcast_all ::
  "WebSocketManager \<Rightarrow> string \<Rightarrow> WebSocketMessage list \<Rightarrow> chan_panic + WebSocketManager" where
  "broadcast_all wsm scan_id [] = Inr wsm"
| "broadcast_all wsm scan_id (message # messages) =
     (case BroadcastToScan wsm scan_id message of
        Inl e \<Rightarrow> Inl e
      | Inr wsm \<Rightarrow> broadcast_all wsm scan_id messages)"

text \<open>The managers reachable from \<open>NewWebSocketManager\<close> by the three methods.\<close>

inductive wsm_reachable :: "WebSocketManager \<Rightarrow> bool" where
  ws_init: "wsm_reachable NewWebSocketManager"
| ws_register: "wsm_reachable wsm \<Longrightarrow> wsm_reachable (RegisterClient wsm scan_id c)"
| ws_unregister: "wsm_reachable wsm \<Longrightarrow> UnregisterClient wsm scan_id c = Inr wsm'
                    \<Longrightarrow> wsm_reachable wsm'"
| ws_broadcast: "wsm_reachable wsm \<Longrightarrow> BroadcastToScan wsm scan_id message = Inr wsm'
                    \<Longrightarrow> wsm_reachable wsm'"

text \<open>
  A sequence of calls of the manager's methods, run one after the other; \<open>registers\<close> tells
  whether a call subscribes a connection to the given scan.
\<close>

datatype ws_call =
  Register string conn
  | Unregister string conn
  | Broadcast string WebSocketMessage

fun ws_run :: "WebSocketManager \<Rightarrow> ws_call list \<Rightarrow> chan_panic + WebSocketManager" where
  "ws_run wsm [] = Inr wsm"
| "ws_run wsm (Register scan_id c # calls) = ws_run (RegisterClient wsm scan_id c) calls"
| "ws_run wsm (Unregister scan_id c # calls) =
     (case UnregisterClient wsm scan_id c of Inl e \<Rightarrow> Inl e | Inr wsm \<Rightarrow> ws_run wsm calls)"
| "ws_run wsm (Broadcast scan_id message # calls) =
     (case BroadcastToScan wsm scan_id message of Inl e \<Rightarrow> Inl e | Inr wsm \<Rightarrow> ws_run wsm calls)"

fun registers :: "string \<Rightarrow> ws_call \<Rightarrow> bool" where
  "registers scan_id (Register scan_id' c) = (scan_id' = scan_id)"
| "registers scan_id (Unregister scan_id' c) = False"
| "registers scan_id (Broadcast scan_id' message) = False"

section \<open>HTTP handlers (package api)\<close>

text \<open>
  A handler reads the request through \<open>c.BindJSON\<close> and \<open>c.Param\<close> and answers with
  \<open>c.JSON(code, gin.H{...})\<close>. The outcome of \<open>BindJSON\<close> is an argument (\<open>Inl\<close> the
  error text, \<open>Inr\<close> the decoded body), the path parameters are arguments, and the answer is
  a \<open>response\<close>.
\<close>

datatype json = JString string | JInt int

datatype response = JSON int "(string \<times> json) list"

record Handler =
  orchestrator :: Orchestrator
  wsManager :: WebSocketManager

definition NewHandler :: "Orchestrator \<Rightarrow> Handler" where
  "NewHandler orch = \<lparr> orchestrator = orch, wsManager = NewWebSocketManager \<rparr>"

text \<open>
  The filtering loop of the handler \<open>StartScan\<close>. \<open>strings.TrimSpace\<close> belongs to Go's
  standard library and is a parameter of the model.
\<close>

fun clean_loop :: "(string \<Rightarrow> string) \<Rightarrow> string list \<Rightarrow> string list \<Rightarrow> string list" where
  "clean_loop TrimSpace cleanDomains [] = cleanDomains"
| "clean_loop TrimSpace cleanDomains (domain # domains) =
     (let domain = TrimSpace domain
      in clean_loop TrimSpace
           (if domain \<noteq> [] then cleanDomains @ [domain] else cleanDomains) domains)"

text \<open>
  The handler \<open>StartScan\<close>. \<open>newID\<close> and \<open>newID'\<close> are the strings the two calls of
  \<open>uuid.New().String()\<close> (in the handler and in the orchestrator) would return. The result
  is the response, the handler's state and the provisioning tasks launched.
\<close>

definition Handler_StartScan ::
  "(string \<Rightarrow> string) \<Rightarrow> Handler \<Rightarrow> string + ScanRequest \<Rightarrow> string \<Rightarrow> string
     \<Rightarrow> panic + (response \<times> Handler \<times> (nat \<times> string list) list)" where
  "Handler_StartScan TrimSpace h bound newID newID' =
     (case bound of
        Inl err \<Rightarrow> Inr (JSON 400 [(''error'', JString err)], h, [])
      | Inr req \<Rightarrow>
          if length (Domains req) = 0
          then Inr (JSON 400 [(''error'', JString ''No domains provided'')], h, [])
          else
            (let cleanDomains = clean_loop TrimSpace [] (Domains req)
             in if length cleanDomains = 0
                then Inr (JSON 400 [(''error'', JString ''No valid domains provided'')], h, [])
                else
                  (let req = req\<lparr> reqID := newID, Domains := cleanDomains \<rparr>
                   in bindp (StartScan (orchestrator h) req newID')
                        (\<lambda>(err, orch, req, tasks).
                           case err of
                             Some e \<Rightarrow>
                               Inr (JSON 500 [(''error'', JString e)],
                                    h\<lparr> orchestrator := orch \<rparr>, tasks)
                           | None \<Rightarrow>
                               Inr (JSON 200
                                      [(''scan_id'', JString (reqID req)),
                                       (''message'', JString ''Scan started successfully''),
                                       (''domains_count'', JInt (int (length (Domains req))))],
                                    h\<lparr> orchestrator := orch \<rparr>, tasks)))))"

text \<open>The handler \<open>ReceiveResults\<close>; \<open>now\<close> is the value of \<open>time.Now()\<close>.\<close>

definition ReceiveResults ::
  "Handler \<Rightarrow> string \<Rightarrow> string \<Rightarrow> string + ScanResult \<Rightarrow> time
     \<Rightarrow> chan_panic + (response \<times> Handler)" where
  "ReceiveResults h scan_id workerID bound now =
     (case bound of
        Inl err \<Rightarrow> Inr (JSON 400 [(''error'', JString err)], h)
      | Inr res \<Rightarrow>
          (let res = res\<lparr> resTimestamp := now, resWorkerID := workerID \<rparr>;
               orch = AddResult (orchestrator h) scan_id res;
               message = \<lparr> wsType = ''new_result'', wsData = ResultData res \<rparr>
           in case BroadcastToScan (wsManager h) scan_id message of
                Inl e \<Rightarrow> Inl e
              | Inr wsm \<Rightarrow>
                  Inr (JSON 200 [(''status'', JString ''received'')],
                       h\<lparr> orchestrator := orch, wsManager := wsm \<rparr>)))"

record Heartbeat =
  hbProgress :: real
  hbCurrentDomain :: string
  hbMessage :: string

definition WorkerHeartbeat ::
  "(real \<Rightarrow> real) \<Rightarrow> Handler \<Rightarrow> string \<Rightarrow> string \<Rightarrow> string + Heartbeat
     \<Rightarrow> chan_panic + (response \<times> Handler)" where
  "WorkerHeartbeat rnd h scan_id workerID bound =
     (case bound of
        Inl err \<Rightarrow> Inr (JSON 400 [(''error'', JString err)], h)
      | Inr heartbeat \<Rightarrow>
          (let orch = UpdateWorkerProgress rnd (orchestrator h) scan_id workerID
                        (hbProgress heartbeat) (hbCurrentDomain heartbeat);
               h = h\<lparr> orchestrator := orch \<rparr>
           in case GetScanStatus orch scan_id of
                Inr status \<Rightarrow>
                  (let message = \<lparr> wsType = ''status_update'', wsData = StatusData status \<rparr>
                   in case BroadcastToScan (wsManager h) scan_id message of
                        Inl e \<Rightarrow> Inl e
                      | Inr wsm \<Rightarrow>
                          Inr (JSON 200 [(''status'', JString ''updated'')], h\<lparr> wsManager := wsm \<rparr>))
              | Inl err \<Rightarrow> Inr (JSON 200 [(''status'', JString ''updated'')], h)))"

text \<open>
  The loop of \<open>CompleteWorker\<close> that looks for a worker below 100 percent (it breaks at the
  first one).
\<close>

fun all_complete :: "WorkerStatus list \<Rightarrow> bool" where
  "all_complete [] = True"
| "all_complete (worker # workers) = (if wProgress worker < 100 then False else all_complete workers)"

text \<open>
  The handler \<open>CompleteWorker\<close>. The third component of the result lists the scans for which
  the goroutine that calls \<open>CleanupScan\<close> after 30 seconds was launched.
\<close>

definition CompleteWorker ::
  "(real \<Rightarrow> real) \<Rightarrow> Handler \<Rightarrow> string \<Rightarrow> string
     \<Rightarrow> chan_panic + (response \<times> Handler \<times> string list)" where
  "CompleteWorker rnd h scan_id workerID =
     (let orch = UpdateWorkerProgress rnd (orchestrator h) scan_id workerID 100 ''completed'';
          h = h\<lparr> orchestrator := orch \<rparr>
      in case GetScanStatus orch scan_id of
           Inr status \<Rightarrow>
             if all_complete (ActiveDroplets status) then
               (let status = status\<lparr> scanStatus := ''completed'' \<rparr>;
                    orch = orch\<lparr> activeScans := (activeScans orch)(scan_id \<mapsto> status) \<rparr>;
                    h = h\<lparr> orchestrator := orch \<rparr>;
                    message = \<lparr> wsType = ''scan_complete'', wsData = StatusData status \<rparr>
                in case BroadcastToScan (wsManager h) scan_id message of
                     Inl e \<Rightarrow> Inl e
                   | Inr wsm \<Rightarrow>
                       Inr (JSON 200 [(''status'', JString ''completed'')],
                            h\<lparr> wsManager := wsm \<rparr>, [scan_id]))
             else Inr (JSON 200 [(''status'', JString ''completed'')], h, [])
         | Inl err \<Rightarrow> Inr (JSON 200 [(''status'', JString ''completed'')], h, []))"

section \<open>Invariant and example states\<close>

text \<open>A registered scan without workers has progress 0.\<close>

definition progress_inv :: "Orchestrator \<Rightarrow> bool" where
  "progress_inv orch =
     (\<forall>scan_id scan. activeScans orch scan_id = Some scan \<longrightarrow> ActiveDroplets scan = []
         \<longrightarrow> scanProgress scan = 0)"

text \<open>
  Concrete states used to instantiate the theorems: a request for two domains on two droplets,
  the registry after \<open>StartScan\<close>, after both workers have registered, and after the first
  worker has reported 50 percent; a droplet service over a list of tagged droplets.
\<close>

definition example_request :: ScanRequest where
  "example_request =
     \<lparr> reqID = ''scan-0001'', Domains = [''a.com'', ''b.com''], Droplets = 2, reqStatus = [] \<rparr>"

definition example_started :: Orchestrator where
  "example_started =
     \<lparr> activeScans = [''scan-0001'' \<mapsto>
         \<lparr> scanID = ''scan-0001'', scanProgress = 0, ActiveDroplets = [], Results = [],
           scanTotalDomains = 2, ScannedDomains = 0, scanStatus = ''starting'' \<rparr>],
       mainServerIP = ''203.0.113.1'' \<rparr>"

definition example_registered :: Orchestrator where
  "example_registered =
     waitForWorker_register
       (waitForWorker_register example_started ''scan-0001'' ''scan-000-worker-0'' ''192.0.2.1'' 1 10)
       ''scan-0001'' ''scan-000-worker-1'' ''192.0.2.2'' 1 12"

definition example_orch :: Orchestrator where
  "example_orch =
     UpdateWorkerProgress (\<lambda>x. x) example_registered ''scan-0001'' ''scan-000-worker-0'' 50 ''a.com''"

definition example_workers :: "WorkerStatus list" where
  "example_workers =
     [\<lparr> wID = ''scan-000-worker-0'', wIP = ''192.0.2.1'', wProgress = 50, wCurrentDomain = ''a.com'',
        wDomainsScanned = 0, wTotalDomains = 1, wLogs = [], wCreatedAt = 10,
        wStatus = ''starting'' \<rparr>,
      \<lparr> wID = ''scan-000-worker-1'', wIP = ''192.0.2.2'', wProgress = 0, wCurrentDomain = [],
        wDomainsScanned = 0, wTotalDomains = 1, wLogs = [], wCreatedAt = 12,
        wStatus = ''starting'' \<rparr>]"

definition example_scan :: ScanStatus where
  "example_scan =
     \<lparr> scanID = ''scan-0001'', scanProgress = 25, ActiveDroplets = example_workers,
       Results = [], scanTotalDomains = 2, ScannedDomains = 0, scanStatus = ''starting'' \<rparr>"

definition example_droplets :: "(Droplet \<times> string list) list" where
  "example_droplets =
     [(\<lparr> dropletID = 7001, dropletName = ''scan-000-worker-0'' \<rparr>, [''nuclei-worker'', ''scan-0001'']),
      (\<lparr> dropletID = 7002, dropletName = ''scan-000-worker-1'' \<rparr>, [''nuclei-worker'', ''scan-0001'']),
      (\<lparr> dropletID = 7003, dropletName = ''scan-111-worker-0'' \<rparr>, [''nuclei-worker'', ''scan-1110''])]"

definition example_service :: "(Droplet \<times> string list) list DropletsService" where
  "example_service =
     \<lparr> ListByTag = (\<lambda>p tag. Some (map fst (filter (\<lambda>(d, tags). tag \<in> set tags) p))),
       Delete = (\<lambda>p i. filter (\<lambda>(d, tags). dropletID d \<noteq> i) p) \<rparr>"

text \<open>
  The invariant of the WebSocket manager: a scan has a client set exactly when it has a broadcast
  channel; the channel of a registered scan is open and was allocated before \<open>nextChan\<close>;
  no two scans share a channel.
\<close>

definition wsm_inv :: "WebSocketManager \<Rightarrow> bool" where
  "wsm_inv wsm =
     ((\<forall>scan_id. clients wsm scan_id = None \<longleftrightarrow> broadcast wsm scan_id = None)
      \<and> (\<forall>scan_id r. broadcast wsm scan_id = Some r \<longrightarrow> \<not> chClosed (chans wsm r) \<and> r < nextChan wsm)
      \<and> (\<forall>scan_id scan_id' r. broadcast wsm scan_id = Some r \<longrightarrow> broadcast wsm scan_id' = Some r
            \<longrightarrow> scan_id = scan_id'))"

text \<open>A manager with one connection subscribed to one scan, and a message.\<close>

definition example_wsm :: WebSocketManager where
  "example_wsm = RegisterClient NewWebSocketManager ''scan-0001'' 1"

definition example_message :: WebSocketMessage where
  "example_message = \<lparr> wsType = ''pong'', wsData = StringData ''pong'' \<rparr>"

text \<open>
  \<open>strings.TrimSpace\<close> on ASCII strings, used to instantiate the parameter \<open>TrimSpace\<close>
  at concrete inputs: leading and trailing blanks, tabs, line feeds, vertical tabs, form feeds
  and carriage returns are removed.
\<close>

definition is_ascii_space :: "char \<Rightarrow> bool" where
  "is_ascii_space c = (c \<in> set [CHR '' '', CHR 0x09, CHR 0x0A, CHR 0x0B, CHR 0x0C, CHR 0x0D])"

definition TrimSpace_ascii :: "string \<Rightarrow> string" where
  "TrimSpace_ascii s = rev (dropWhile is_ascii_space (rev (dropWhile is_ascii_space s)))"

definition example_handler :: Handler where
  "example_handler = NewHandler (New ''203.0.113.1'')"

definition example_blank_request :: ScanRequest where
  "example_blank_request = \<lparr> reqID = [], Domains = [''  '', []], Droplets = 3, reqStatus = [] \<rparr>"

definition example_submission :: ScanRequest where
  "example_submission =
     \<lparr> reqID = [], Domains = ['' a.com '', ''  '', ''b.com''], Droplets = 2, reqStatus = [] \<rparr>"

text \<open>
  A handler whose scan has one worker at 100 percent and one at 0, with one subscriber on the
  scan's live feed; a result and a heartbeat as a worker would post them.
\<close>

definition example_feed_workers :: "WorkerStatus list" where
  "example_feed_workers =
     [\<lparr> wID = ''scan-000-worker-0'', wIP = ''192.0.2.1'', wProgress = 100, wCurrentDomain = ''completed'',
        wDomainsScanned = 1, wTotalDomains = 1, wLogs = [], wCreatedAt = 10,
        wStatus = ''starting'' \<rparr>,
      \<lparr> wID = ''scan-000-worker-1'', wIP = ''192.0.2.2'', wProgress = 0, wCurrentDomain = [],
        wDomainsScanned = 0, wTotalDomains = 1, wLogs = [], wCreatedAt = 12,
        wStatus = ''starting'' \<rparr>]"

definition example_feed_scan :: ScanStatus where
  "example_feed_scan =
     \<lparr> scanID = ''scan-0001'', scanProgress = 50, ActiveDroplets = example_feed_workers,
       Results = [], scanTotalDomains = 2, ScannedDomains = 0, scanStatus = ''starting'' \<rparr>"

definition example_feed_handler :: Handler where
  "example_feed_handler =
     \<lparr> orchestrator =
         UpdateWorkerProgress (\<lambda>x. x) example_orch ''scan-0001'' ''scan-000-worker-0'' 100 ''completed'',
       wsManager = example_wsm \<rparr>"

definition example_result :: ScanResult where
  "example_result =
     \<lparr> resHost = ''b.com'', resTemplate = ''tech-detect'', resSeverity = ''info'',
       resMatch = ''nginx'', resTimestamp = 0, resWorkerID = [] \<rparr>"

definition example_heartbeat :: Heartbeat where
  "example_heartbeat = \<lparr> hbProgress = 40, hbCurrentDomain = ''b.com'', hbMessage = ''scanning'' \<rparr>"

section \<open>Planner: auxiliary facts\<close>

declare createChunks_loop.simps [simp del]

lemma go_div_pos: "0 \<le> a \<Longrightarrow> 0 < b \<Longrightarrow> go_div a b = Inr (a div b)"
  by (simp add: go_div_def sgn_if)

lemma go_mod_pos: "0 \<le> a \<Longrightarrow> 0 < b \<Longrightarrow> go_mod a b = Inr (a mod b)"
  by (simp add: go_mod_def sgn_if)

lemma bindp_Inr [simp]: "bindp (Inr x) f = f x"
  by (simp add: bindp_def)

lemma bindp_Inl [simp]: "bindp (Inl e) f = Inl e"
  by (simp add: bindp_def)

lemma loop_inv:
  assumes "0 \<le> i" "i \<le> n" "length chunks = nat n" "0 \<le> base" "0 \<le> start" "extra \<le> n"
    and "start + (n - i) * base + max 0 (extra - i) = int (length domains)"
  shows "\<exists>res. createChunks_loop domains n base extra i start chunks = Inr res
           \<and> length res = nat n
           \<and> take (nat i) res = take (nat i) chunks
           \<and> concat (drop (nat i) res) = drop (nat start) domains
           \<and> (\<forall>j. nat i \<le> j \<and> j < nat n \<longrightarrow>
                 int (length (res ! j)) = base + (if int j < extra then 1 else 0))"
  using assms
proof (induction domains n base extra i start chunks rule: createChunks_loop.induct)
  case (1 domains n base extra i start chunks)
  show ?case
  proof (cases "i < n")
    case False
    with 1 show ?thesis
      apply (subst createChunks_loop.simps) 
      apply auto
      done
  next
    case True
    define chunkSize where "chunkSize = (if i < extra then base + 1 else base)"
    define e where "e = start + chunkSize"
    have rest: "(n - i) * base = base + (n - (i + 1)) * base"
      by (simp add: algebra_simps)
    have mx: "max 0 (extra - i) = (if i < extra then 1 else 0) + max 0 (extra - (i + 1))"
      by auto
    have nn: "0 \<le> (n - (i + 1)) * base"
      using True 1(5) by simp
    have e_inv: "e + (n - (i + 1)) * base + max 0 (extra - (i + 1)) = int (length domains)"
    proof -
      define R where "R = (n - (i + 1)) * base"
      have "start + (base + R) + max 0 (extra - i) = int (length domains)"
        using 1(8) rest by (simp add: R_def)
      then have "start + chunkSize + R + max 0 (extra - (i + 1)) = int (length domains)"
        unfolding chunkSize_def by (cases "i < extra") simp_all
      then show ?thesis by (simp add: e_def R_def)
    qed
    have e_le: "e \<le> int (length domains)"
      using e_inv nn by linarith
    have cs_nonneg: "0 \<le> chunkSize"
      using 1(5) by (simp add: chunkSize_def)
    define chunk where "chunk = take (nat chunkSize) (drop (nat start) domains)"
    have sl: "go_slice domains start e = Inr chunk"
      using 1(6) cs_nonneg e_le by (simp add: go_slice_def e_def chunk_def)
    have unfold: "createChunks_loop domains n base extra i start chunks =
        createChunks_loop domains n base extra (i + 1) e (chunks[nat i := chunk])"
      apply (subst createChunks_loop.simps)
      using True e_le sl
      apply (simp add: Let_def e_def chunkSize_def)
      done
    have IH: "\<exists>res. createChunks_loop domains n base extra (i + 1) e (chunks[nat i := chunk]) = Inr res
           \<and> length res = nat n
           \<and> take (nat (i + 1)) res = take (nat (i + 1)) (chunks[nat i := chunk])
           \<and> concat (drop (nat (i + 1)) res) = drop (nat e) domains
           \<and> (\<forall>j. nat (i + 1) \<le> j \<and> j < nat n \<longrightarrow>
                 int (length (res ! j)) = base + (if int j < extra then 1 else 0))"
    proof (rule "1.IH" [OF True refl refl refl])
      show "e = (if int (length domains) < start + (if i < extra then base + 1 else base)
                 then int (length domains) else start + (if i < extra then base + 1 else base))"
        using e_le by (simp add: e_def chunkSize_def)
      show "0 \<le> i + 1" using 1(2) by simp
      show "i + 1 \<le> n" using True by simp
      show "length (chunks[nat i := chunk]) = nat n" using 1(4) by simp
      show "0 \<le> base" by fact
      show "0 \<le> e" using 1(6) cs_nonneg by (simp add: e_def)
      show "extra \<le> n" by fact
      show "e + (n - (i + 1)) * base + max 0 (extra - (i + 1)) = int (length domains)" by fact
    qed
    then obtain res where res: "createChunks_loop domains n base extra (i + 1) e (chunks[nat i := chunk]) = Inr res"
      "length res = nat n"
      "take (nat (i + 1)) res = take (nat (i + 1)) (chunks[nat i := chunk])"
      "concat (drop (nat (i + 1)) res) = drop (nat e) domains"
      "\<forall>j. nat (i + 1) \<le> j \<and> j < nat n \<longrightarrow>
                 int (length (res ! j)) = base + (if int j < extra then 1 else 0)"
      by blast
    have i_lt: "nat i < length res" using True 1(2) res(2) by simp
    have nat_i1: "nat (i + 1) = Suc (nat i)" using 1(2) by simp
    have res_i: "res ! nat i = chunk"
    proof -
      have "res ! nat i = take (nat (i + 1)) res ! nat i" by (simp add: nat_i1)
      also have "\<dots> = take (nat (i + 1)) (chunks[nat i := chunk]) ! nat i" by (simp add: res(3))
      also have "\<dots> = chunk" using True 1(2,4) by (simp add: nat_i1)
      finally show ?thesis .
    qed
    have tk: "take (nat i) res = take (nat i) chunks"
    proof -
      have "take (nat i) res = take (nat i) (take (nat (i + 1)) res)" by (simp add: nat_i1 min_def)
      also have "\<dots> = take (nat i) (take (nat (i + 1)) (chunks[nat i := chunk]))" by (simp add: res(3))
      also have "\<dots> = take (nat i) chunks" by (simp add: nat_i1 min_def)
      finally show ?thesis .
    qed
    have len_chunk: "int (length chunk) = chunkSize"
      using cs_nonneg e_le 1(6) by (simp add: chunk_def e_def)
    have cc: "concat (drop (nat i) res) = drop (nat start) domains"
    proof -
      have "drop (nat i) res = chunk # drop (nat (i + 1)) res"
        using Cons_nth_drop_Suc [OF i_lt] res_i by (simp add: nat_i1)
      moreover have "nat e = nat chunkSize + nat start"
        using cs_nonneg 1(6) by (simp add: e_def nat_add_distrib)
      ultimately show ?thesis
        using res(4) by (simp add: chunk_def drop_drop [symmetric] del: drop_drop)
    qed
    have sz: "\<forall>j. nat i \<le> j \<and> j < nat n \<longrightarrow>
                 int (length (res ! j)) = base + (if int j < extra then 1 else 0)"
    proof (intro allI impI)
      fix j assume j: "nat i \<le> j \<and> j < nat n"
      show "int (length (res ! j)) = base + (if int j < extra then 1 else 0)"
      proof (cases "j = nat i")
        case True
        then show ?thesis using res_i len_chunk 1(2) by (simp add: chunkSize_def)
      next
        case False
        with j have "nat (i + 1) \<le> j \<and> j < nat n" by (simp add: nat_i1)
        with res(5) show ?thesis by blast
      qed
    qed
    show ?thesis
      unfolding unfold using res(1,2) tk cc sz by blast
  qed
qed


lemma createChunks_ok:
  assumes "0 < n"
  shows "\<exists>chunks. createChunks domains n = Inr chunks
           \<and> length chunks = nat n
           \<and> concat chunks = domains
           \<and> (\<forall>j. j < nat n \<longrightarrow>
                 int (length (chunks ! j)) =
                   int (length domains) div n + (if int j < int (length domains) mod n then 1 else 0))"
proof -
  let ?t = "int (length domains)"
  have inv: "0 + (n - 0) * (?t div n) + max 0 (?t mod n - 0) = ?t"
    using assms by (simp add: max_def)
  have lt: "?t mod n \<le> n" using assms by (simp add: less_imp_le)
  have "\<exists>res. createChunks_loop domains n (?t div n) (?t mod n) 0 0 (replicate (nat n) []) = Inr res
           \<and> length res = nat n
           \<and> take (nat 0) res = take (nat 0) (replicate (nat n) [])
           \<and> concat (drop (nat 0) res) = drop (nat 0) domains
           \<and> (\<forall>j. nat 0 \<le> j \<and> j < nat n \<longrightarrow>
                 int (length (res ! j)) = ?t div n + (if int j < ?t mod n then 1 else 0))"
    by (rule loop_inv [OF _ _ _ _ _ lt inv]) (use assms in \<open>simp_all add: pos_imp_zdiv_nonneg_iff\<close>)
  then show ?thesis
    using assms by (simp add: createChunks_def Let_def go_div_pos go_mod_pos)
qed

lemma small_cases: "(1::int) \<le> n \<Longrightarrow> n \<le> 5 \<Longrightarrow> n = 1 \<or> n = 2 \<or> n = 3 \<or> n = 4 \<or> n = 5"
  by arith

lemma clamp_default_bounds: "1 \<le> clamp_default r \<and> clamp_default r \<le> 5"
  by (simp add: clamp_default_def)

lemma raise_default_bounds:
  assumes "0 \<le> t" "1 \<le> n1" "n1 \<le> 5"
  shows "1 \<le> raise_default t n1 \<and> raise_default t n1 \<le> 5"
proof (cases "t div n1 > 500")
  case False
  with assms show ?thesis by (simp add: raise_default_def)
next
  case True
  have "t div n1 \<le> t"
    using small_cases [OF assms(2,3)] assms(1) by (elim disjE) simp_all
  with True have "500 < t" by simp
  then have "1 \<le> (t + 500 - 1) div 500" by simp
  with True show ?thesis by (simp add: raise_default_def)
qed

lemma lower_default_bounds:
  assumes "0 \<le> t" "1 \<le> n2" "n2 \<le> 5"
  shows "1 \<le> lower_default t n2 \<and> lower_default t n2 \<le> 5"
proof (cases "t > 50 \<and> t div n2 < 50")
  case False
  with assms show ?thesis by (auto simp add: lower_default_def)
next
  case True
  have "t < 250"
    using small_cases [OF assms(2,3)] True by (elim disjE) (simp_all, arith+)
  then have "t div 50 \<le> 5" by simp
  moreover have "1 \<le> t div 50" using True by arith
  ultimately show ?thesis using True by (simp add: lower_default_def)
qed

lemma calc_default_eq:
  assumes "0 \<le> t"
  shows "calculateOptimalDroplets NewScanOptimizer t r =
           Inr (lower_default t (raise_default t (clamp_default r)))"
proof -
  let ?n1 = "clamp_default r"
  let ?n2 = "raise_default t ?n1"
  have b1: "0 < ?n1" using clamp_default_bounds [of r] by simp
  have b2: "0 < ?n2" using raise_default_bounds [OF assms, of ?n1] clamp_default_bounds [of r] by simp
  have d1: "go_div t ?n1 = Inr (t div ?n1)" by (rule go_div_pos [OF assms b1])
  have d2: "go_div t ?n2 = Inr (t div ?n2)" by (rule go_div_pos [OF assms b2])
  have d3: "go_div (t + 500 - 1) 500 = Inr ((t + 500 - 1) div 500)"
    using assms by (simp add: go_div_pos)
  have d4: "go_div t 50 = Inr (t div 50)"
    using assms by (simp add: go_div_pos)
  have step2: "(if t div ?n1 > 500
                then bindp (go_div (t + 500 - 1) 500) (\<lambda>od. Inr (if od > 5 then 5 else od))
                else Inr ?n1) = Inr ?n2"
    unfolding d3 raise_default_def by simp
  have step3: "(if t > 50
         then bindp (go_div t ?n2) (\<lambda>dpd.
                if dpd < 50
                then bindp (go_div t 50) (\<lambda>od. Inr (if od < 1 then 1 else od))
                else Inr ?n2)
         else Inr ?n2) = Inr (lower_default t ?n2)"
    unfolding d2 d4 lower_default_def by simp
  have sel: "MaxDomainsPerDroplet NewScanOptimizer = 500" "MinDomainsPerDroplet NewScanOptimizer = 50"
    "MaxDroplets NewScanOptimizer = 5" "MinDroplets NewScanOptimizer = 1"
    by (simp_all add: NewScanOptimizer_def)
  have "calculateOptimalDroplets NewScanOptimizer t r =
      bindp (go_div t ?n1) (\<lambda>dpd.
        bindp (if dpd > 500
               then bindp (go_div (t + 500 - 1) 500) (\<lambda>od. Inr (if od > 5 then 5 else od))
               else Inr ?n1) (\<lambda>od.
        if t > 50
        then bindp (go_div t od) (\<lambda>dpd.
               if dpd < 50
               then bindp (go_div t 50) (\<lambda>od'. Inr (if od' < 1 then 1 else od'))
               else Inr od)
        else Inr od))"
    unfolding calculateOptimalDroplets_def Let_def clamp_default_def by (simp only: sel)
  also have "\<dots> = Inr (lower_default t ?n2)"
    by (simp only: d1 bindp_Inr step2 step3)
  finally show ?thesis .
qed

lemma calc_default:
  assumes "0 \<le> t"
  shows "\<exists>n. calculateOptimalDroplets NewScanOptimizer t r = Inr n \<and> 1 \<le> n \<and> n \<le> 5"
  using calc_default_eq [OF assms, of r] clamp_default_bounds [of r]
    raise_default_bounds [OF assms, of "clamp_default r"]
    lower_default_bounds [OF assms, of "raise_default t (clamp_default r)"]
  by simp


lemma concat_nth_slice:
  "j < length xss \<Longrightarrow>
     xss ! j = take (length (xss ! j)) (drop (sum_list (map length (take j xss))) (concat xss))"
proof (induction xss arbitrary: j)
  case Nil
  then show ?case by simp
next
  case (Cons xs xss)
  show ?case
  proof (cases j)
    case 0
    then show ?thesis by simp
  next
    case (Suc k)
    with Cons.prems have "k < length xss" by simp
    from Cons.IH [OF this] show ?thesis using Suc by simp
  qed
qed

lemma OptimizeDistribution_default:
  assumes "domains \<noteq> []"
  shows "\<exists>chunks. OptimizeDistribution NewScanOptimizer domains r =
            Inr (lower_default (int (length domains)) (raise_default (int (length domains)) (clamp_default r)), chunks)
          \<and> createChunks domains (lower_default (int (length domains)) (raise_default (int (length domains)) (clamp_default r))) = Inr chunks"
proof -
  let ?t = "int (length domains)"
  let ?n = "lower_default ?t (raise_default ?t (clamp_default r))"
  have t: "0 \<le> ?t" "?t \<noteq> 0" using assms by simp_all
  have "0 < ?n"
    using clamp_default_bounds [of r]
      raise_default_bounds [OF t(1), of "clamp_default r"]
      lower_default_bounds [OF t(1), of "raise_default ?t (clamp_default r)"]
    by simp
  from createChunks_ok [OF this, of domains] obtain chunks where "createChunks domains ?n = Inr chunks"
    by blast
  then show ?thesis
    using t(2) by (simp add: OptimizeDistribution_def Let_def calc_default_eq [OF t(1)])
qed

lemma lower_raise_avg:
  assumes "0 \<le> t" "t \<le> 2500" "1 \<le> n1" "n1 \<le> 5"
  shows "t div lower_default t (raise_default t n1) \<le> 500"
proof (cases "t div n1 > 500")
  case True
  have "t div n1 \<le> t"
    using small_cases [OF assms(3,4)] assms(1) by (elim disjE) simp_all
  with True have big: "500 < t" by simp
  define n2 where "n2 = (t + 500 - 1) div 500"
  have n2: "1 \<le> n2" "n2 \<le> 5" using big assms(2) by (simp_all add: n2_def)
  have r: "raise_default t n1 = n2" using True n2 by (simp add: raise_default_def n2_def)
  have "t \<le> 500 * n2" unfolding n2_def by arith
  then have avg: "t div n2 \<le> 500" "\<not> t div n2 < 50"
    using small_cases [OF n2] big by (elim disjE; simp; arith)+
  then show ?thesis using big by (simp add: r lower_default_def)
next
  case False
  then have r: "raise_default t n1 = n1" by (simp add: raise_default_def)
  show ?thesis
  proof (cases "t > 50 \<and> t div n1 < 50")
    case F2: False
    then show ?thesis using False by (auto simp add: r lower_default_def)
  next
    case T2: True
    have "t < 250"
      using small_cases [OF assms(3,4)] T2 by (elim disjE) (simp_all, arith+)
    moreover have "1 \<le> t div 50" using T2 by arith
    moreover have "t div (t div 50) \<le> t"
      using assms(1) T2 by (intro int_div_le_self) simp
    ultimately show ?thesis using T2 by (simp add: r lower_default_def)
  qed
qed


section \<open>Orchestrator: auxiliary facts\<close>

lemma sum_progress_foldl:
  "sum_progress rnd t workers = foldl (fadd rnd) t (map wProgress workers)"
  by (induction workers arbitrary: t) simp_all

lemma arithmetic_mean_exact: "arithmetic_mean (\<lambda>x. x) xs = sum_list xs / real (length xs)"
proof -
  have "foldl (fadd (\<lambda>x. x)) t xs = t + sum_list xs" for t
    by (induction xs arbitrary: t) (simp_all add: fadd_def)
  then show ?thesis
    by (simp add: arithmetic_mean_def fdiv_def float64_of_int_def)
qed

lemma length_update_worker [simp]:
  "length (update_worker rnd workerID progress currentDomain workers) = length workers"
  by (induction workers) simp_all

lemma update_worker_absent:
  "workerID \<notin> wID ` set workers \<Longrightarrow>
     update_worker rnd workerID progress currentDomain workers = workers"
  by (induction workers) auto

lemma UpdateWorkerProgress_Some:
  assumes "activeScans orch scan_id = Some scan"
  shows "activeScans (UpdateWorkerProgress rnd orch scan_id workerID progress currentDomain) scan_id =
     Some (let ws = update_worker rnd workerID progress currentDomain (ActiveDroplets scan)
           in if ws \<noteq> []
              then scan\<lparr>ActiveDroplets := ws, scanProgress := arithmetic_mean rnd (map wProgress ws)\<rparr>
              else scan\<lparr>ActiveDroplets := ws\<rparr>)"
  using assms
  by (simp add: UpdateWorkerProgress_def Let_def arithmetic_mean_def sum_progress_foldl)

lemma UpdateWorkerProgress_other:
  "other \<noteq> scan_id \<Longrightarrow>
   activeScans (UpdateWorkerProgress rnd orch scan_id workerID progress currentDomain) other =
     activeScans orch other"
  by (simp add: UpdateWorkerProgress_def Let_def split: option.splits)

lemma UpdateWorkerProgress_None:
  "activeScans orch scan_id = None \<Longrightarrow>
   UpdateWorkerProgress rnd orch scan_id workerID progress currentDomain = orch"
  by (simp add: UpdateWorkerProgress_def)

lemma update_worker_Nil [simp]:
  "update_worker rnd workerID progress currentDomain workers = [] \<longleftrightarrow> workers = []"
  by (cases workers) simp_all

lemma reachable_progress_inv: "reachable rnd orch \<Longrightarrow> progress_inv orch"
proof (induction rule: reachable.induct)
  case (init ip)
  show ?case by (simp add: progress_inv_def New_def)
next
  case (start orch req newID err orch' req' tasks)
  then show ?case
    by (auto simp add: progress_inv_def StartScan_def Let_def bindp_def
        split: sum.splits prod.splits if_splits)
next
  case (register orch scan_id workerID ip totalDomains now)
  then show ?case
    by (auto simp add: progress_inv_def waitForWorker_register_def Let_def split: option.splits if_splits)
next
  case (progress orch scan_id workerID progress currentDomain)
  show ?case
    unfolding progress_inv_def
  proof (intro allI impI)
    fix sid scan
    assume a: "activeScans (UpdateWorkerProgress rnd orch scan_id workerID progress currentDomain) sid = Some scan"
      and e: "ActiveDroplets scan = []"
    show "scanProgress scan = 0"
    proof (cases "sid = scan_id")
      case False
      with a progress.IH e show ?thesis
        by (simp add: UpdateWorkerProgress_other progress_inv_def)
    next
      case True
      show ?thesis
      proof (cases "activeScans orch scan_id")
        case None
        with a progress.IH e True show ?thesis
          by (simp add: UpdateWorkerProgress_None progress_inv_def)
      next
        case (Some old)
        from a e True UpdateWorkerProgress_Some [OF Some, of rnd workerID progress currentDomain]
        have "ActiveDroplets old = []" "scanProgress scan = scanProgress old"
          by (auto simp add: Let_def split: if_splits)
        with progress.IH Some show ?thesis by (simp add: progress_inv_def)
      qed
    qed
  qed
next
  case (result orch scan_id res)
  then show ?case
    by (auto simp add: progress_inv_def AddResult_def split: option.splits if_splits)
next
  case (complete orch scan_id scan)
  then show ?case
    by (auto simp add: progress_inv_def split: if_splits)
next
  case (cleanup orch scan_id)
  then show ?case
    by (auto simp add: progress_inv_def split: if_splits)
qed

lemma example_StartScan:
  "StartScan (New ''203.0.113.1'') example_request [] =
     Inr (None, example_started, example_request, [(0, [''a.com'']), (1, [''b.com''])])"
proof -
  have "OptimizeDistribution NewScanOptimizer [''a.com'', ''b.com''] 2 = Inr (2, [[''a.com''], [''b.com'']])"
    by code_simp
  then show ?thesis
    by (simp add: StartScan_def example_request_def example_started_def New_def Let_def)
qed

lemma example_orch_reachable: "reachable (\<lambda>x. x) example_orch"
  unfolding example_orch_def example_registered_def
  by (intro reachable.progress reachable.register reachable.start [OF reachable.init example_StartScan])

lemma example_orch_eq:
  "example_orch = \<lparr> activeScans = [''scan-0001'' \<mapsto> example_scan], mainServerIP = ''203.0.113.1'' \<rparr>"
  by (simp add: example_orch_def example_registered_def example_started_def example_scan_def
      example_workers_def waitForWorker_register_def UpdateWorkerProgress_def Let_def
      fadd_def fmul_def fdiv_def float64_of_int_def int_of_float64_def)

lemma example_orch_scan: "activeScans example_orch ''scan-0001'' = Some example_scan"
  by (simp add: example_orch_eq)

lemma example_cleanup:
  "CleanupScan example_service (example_orch, example_droplets) ''scan-0001''
     = (None, \<lparr> activeScans = Map.empty, mainServerIP = ''203.0.113.1'' \<rparr>,
        [(\<lparr> dropletID = 7003, dropletName = ''scan-111-worker-0'' \<rparr>, [''nuclei-worker'', ''scan-1110''])])"
  by (simp add: CleanupScan_def example_orch_eq example_scan_def example_workers_def
      example_service_def example_droplets_def)

section \<open>WebSocket manager: auxiliary facts\<close>

lemma wsm_invI:
  assumes "\<And>sid. (clients wsm sid = None) = (broadcast wsm sid = None)"
    and "\<And>sid r. broadcast wsm sid = Some r \<Longrightarrow> \<not> chClosed (chans wsm r)"
    and "\<And>sid r. broadcast wsm sid = Some r \<Longrightarrow> r < nextChan wsm"
    and "\<And>sid sid' r. broadcast wsm sid = Some r \<Longrightarrow> broadcast wsm sid' = Some r \<Longrightarrow> sid = sid'"
  shows "wsm_inv wsm"
  unfolding wsm_inv_def using assms by blast

lemma wsm_inv_dom: "wsm_inv wsm \<Longrightarrow> (clients wsm sid = None) = (broadcast wsm sid = None)"
  unfolding wsm_inv_def by blast

lemma wsm_inv_open: "wsm_inv wsm \<Longrightarrow> broadcast wsm sid = Some r \<Longrightarrow> \<not> chClosed (chans wsm r)"
  unfolding wsm_inv_def by blast

lemma wsm_inv_lt: "wsm_inv wsm \<Longrightarrow> broadcast wsm sid = Some r \<Longrightarrow> r < nextChan wsm"
  unfolding wsm_inv_def by blast

lemma wsm_inv_inj:
  "wsm_inv wsm \<Longrightarrow> broadcast wsm sid = Some r \<Longrightarrow> broadcast wsm sid' = Some r \<Longrightarrow> sid = sid'"
  unfolding wsm_inv_def by blast

lemma wsm_inv_init: "wsm_inv NewWebSocketManager"
  by (simp add: wsm_inv_def NewWebSocketManager_def)

lemma wsm_inv_clients_upd:
  assumes "wsm_inv wsm" "clients wsm scan_id = Some cs"
  shows "wsm_inv (wsm\<lparr> clients := (clients wsm)(scan_id \<mapsto> cs') \<rparr>)"
proof (rule wsm_invI)
  fix sid
  show "(clients (wsm\<lparr> clients := (clients wsm)(scan_id \<mapsto> cs') \<rparr>) sid = None)
      = (broadcast (wsm\<lparr> clients := (clients wsm)(scan_id \<mapsto> cs') \<rparr>) sid = None)"
    using wsm_inv_dom [OF assms(1), of sid] assms(2) by (cases "sid = scan_id") simp_all
next
  fix sid r assume "broadcast (wsm\<lparr> clients := (clients wsm)(scan_id \<mapsto> cs') \<rparr>) sid = Some r"
  then have b: "broadcast wsm sid = Some r" by simp
  show "\<not> chClosed (chans (wsm\<lparr> clients := (clients wsm)(scan_id \<mapsto> cs') \<rparr>) r)"
    using wsm_inv_open [OF assms(1) b] by simp
  show "r < nextChan (wsm\<lparr> clients := (clients wsm)(scan_id \<mapsto> cs') \<rparr>)"
    using wsm_inv_lt [OF assms(1) b] by simp
next
  fix sid sid' r
  assume "broadcast (wsm\<lparr> clients := (clients wsm)(scan_id \<mapsto> cs') \<rparr>) sid = Some r"
    "broadcast (wsm\<lparr> clients := (clients wsm)(scan_id \<mapsto> cs') \<rparr>) sid' = Some r"
  then show "sid = sid'" using wsm_inv_inj [OF assms(1), of sid r sid'] by simp
qed

lemma wsm_inv_register:
  assumes "wsm_inv wsm"
  shows "wsm_inv (RegisterClient wsm scan_id c)"
proof (cases "clients wsm scan_id")
  case (Some cs)
  then have "RegisterClient wsm scan_id c = wsm\<lparr> clients := (clients wsm)(scan_id \<mapsto> insert c cs) \<rparr>"
    by (simp add: RegisterClient_def)
  with wsm_inv_clients_upd [OF assms Some] show ?thesis by simp
next
  case None
  let ?w = "wsm\<lparr> clients := (clients wsm)(scan_id \<mapsto> {c}),
          broadcast := (broadcast wsm)(scan_id \<mapsto> nextChan wsm),
          chans := (chans wsm)(nextChan wsm := \<lparr> chBuf = [], chClosed = False \<rparr>),
          nextChan := nextChan wsm + 1 \<rparr>"
  from None have eq: "RegisterClient wsm scan_id c = ?w"
    by (simp add: RegisterClient_def Let_def)
  have "wsm_inv ?w"
  proof (rule wsm_invI)
    fix sid
    show "(clients ?w sid = None) = (broadcast ?w sid = None)"
      using wsm_inv_dom [OF assms, of sid] by (cases "sid = scan_id") simp_all
  next
    fix sid r assume b: "broadcast ?w sid = Some r"
    show "\<not> chClosed (chans ?w r)"
    proof (cases "sid = scan_id")
      case True
      with b show ?thesis by simp
    next
      case False
      with b have b': "broadcast wsm sid = Some r" by simp
      from wsm_inv_lt [OF assms b'] wsm_inv_open [OF assms b'] show ?thesis by simp
    qed
    show "r < nextChan ?w"
    proof (cases "sid = scan_id")
      case True
      with b show ?thesis by simp
    next
      case False
      with b have b': "broadcast wsm sid = Some r" by simp
      from wsm_inv_lt [OF assms b'] show ?thesis by simp
    qed
  next
    fix sid sid' r assume b: "broadcast ?w sid = Some r" and b': "broadcast ?w sid' = Some r"
    show "sid = sid'"
    proof (cases "sid = scan_id")
      case True
      with b have r: "r = nextChan wsm" by simp
      show ?thesis
      proof (cases "sid' = scan_id")
        case True
        with \<open>sid = scan_id\<close> show ?thesis by simp
      next
        case False
        with b' have "broadcast wsm sid' = Some r" by simp
        from wsm_inv_lt [OF assms this] r show ?thesis by simp
      qed
    next
      case False
      with b have bb: "broadcast wsm sid = Some r" by simp
      show ?thesis
      proof (cases "sid' = scan_id")
        case True
        with b' have "r = nextChan wsm" by simp
        with wsm_inv_lt [OF assms bb] show ?thesis by simp
      next
        case False
        with b' have "broadcast wsm sid' = Some r" by simp
        from wsm_inv_inj [OF assms bb this] show ?thesis .
      qed
    qed
  qed
  with eq show ?thesis by simp
qed

lemma BroadcastToScan_None:
  "broadcast wsm scan_id = None \<Longrightarrow> BroadcastToScan wsm scan_id message = Inr wsm"
  by (simp add: BroadcastToScan_def)

lemma broadcast_all_None:
  "broadcast wsm scan_id = None \<Longrightarrow> broadcast_all wsm scan_id messages = Inr wsm"
  by (induction messages) (simp_all add: BroadcastToScan_None)

lemma wsm_inv_broadcast:
  assumes "wsm_inv wsm" "BroadcastToScan wsm scan_id message = Inr wsm'"
  shows "wsm_inv wsm'"
proof (cases "broadcast wsm scan_id")
  case None
  with assms show ?thesis by (simp add: BroadcastToScan_None)
next
  case (Some r)
  with assms(2) obtain ch where ch: "try_send (chans wsm r) message = Inr ch"
    and eq: "wsm' = wsm\<lparr> chans := (chans wsm)(r := ch) \<rparr>"
    by (auto simp add: BroadcastToScan_def split: sum.splits)
  from ch have cl: "chClosed ch = chClosed (chans wsm r)"
    by (auto simp add: try_send_def split: if_splits)
  show ?thesis
    unfolding eq
  proof (rule wsm_invI)
    fix sid
    show "(clients (wsm\<lparr> chans := (chans wsm)(r := ch) \<rparr>) sid = None)
        = (broadcast (wsm\<lparr> chans := (chans wsm)(r := ch) \<rparr>) sid = None)"
      using wsm_inv_dom [OF assms(1), of sid] by simp
  next
    fix sid r' assume "broadcast (wsm\<lparr> chans := (chans wsm)(r := ch) \<rparr>) sid = Some r'"
    then have b: "broadcast wsm sid = Some r'" by simp
    show "\<not> chClosed (chans (wsm\<lparr> chans := (chans wsm)(r := ch) \<rparr>) r')"
      using wsm_inv_open [OF assms(1) b] cl by (cases "r' = r") simp_all
    show "r' < nextChan (wsm\<lparr> chans := (chans wsm)(r := ch) \<rparr>)"
      using wsm_inv_lt [OF assms(1) b] by simp
  next
    fix sid sid' r'
    assume "broadcast (wsm\<lparr> chans := (chans wsm)(r := ch) \<rparr>) sid = Some r'"
      "broadcast (wsm\<lparr> chans := (chans wsm)(r := ch) \<rparr>) sid' = Some r'"
    then show "sid = sid'" using wsm_inv_inj [OF assms(1), of sid r' sid'] by simp
  qed
qed

lemma UnregisterClient_last:
  assumes "clients wsm scan_id = Some {c}" "broadcast wsm scan_id = Some r" "\<not> chClosed (chans wsm r)"
  shows "UnregisterClient wsm scan_id c =
     Inr (wsm\<lparr> chans := (chans wsm)(r := (chans wsm r)\<lparr> chClosed := True \<rparr>),
               clients := (clients wsm)(scan_id := None),
               broadcast := (broadcast wsm)(scan_id := None) \<rparr>)"
  using assms by (simp add: UnregisterClient_def close_chan_def Let_def)

lemma wsm_inv_unregister:
  assumes "wsm_inv wsm" "UnregisterClient wsm scan_id c = Inr wsm'"
  shows "wsm_inv wsm'"
proof (cases "clients wsm scan_id")
  case None
  with assms show ?thesis by (simp add: UnregisterClient_def)
next
  case (Some cs)
  show ?thesis
  proof (cases "c \<in> cs")
    case False
    with assms Some show ?thesis by (simp add: UnregisterClient_def)
  next
    case True
    show ?thesis
    proof (cases "cs - {c} = {}")
      case False
      with assms(2) Some True have "wsm' = wsm\<lparr> clients := (clients wsm)(scan_id \<mapsto> cs - {c}) \<rparr>"
        by (simp add: UnregisterClient_def Let_def)
      with wsm_inv_clients_upd [OF assms(1) Some] show ?thesis by simp
    next
      case e: True
      with True have cs: "cs = {c}" by auto
      from wsm_inv_dom [OF assms(1), of scan_id] Some obtain r where r: "broadcast wsm scan_id = Some r"
        by (cases "broadcast wsm scan_id") simp_all
      have open_r: "\<not> chClosed (chans wsm r)" by (rule wsm_inv_open [OF assms(1) r])
      let ?w = "wsm\<lparr> chans := (chans wsm)(r := (chans wsm r)\<lparr> chClosed := True \<rparr>),
               clients := (clients wsm)(scan_id := None),
               broadcast := (broadcast wsm)(scan_id := None) \<rparr>"
      have eq: "wsm' = ?w"
        using UnregisterClient_last [OF Some [unfolded cs] r open_r] assms(2) by simp
      have "wsm_inv ?w"
      proof (rule wsm_invI)
        fix sid
        show "(clients ?w sid = None) = (broadcast ?w sid = None)"
        proof (cases "sid = scan_id")
          case True
          then show ?thesis by simp
        next
          case False
          then have "clients ?w sid = clients wsm sid" "broadcast ?w sid = broadcast wsm sid"
            by simp_all
          then show ?thesis by (simp only: wsm_inv_dom [OF assms(1), of sid])
        qed
      next
        fix sid r' assume b: "broadcast ?w sid = Some r'"
        then have ne: "sid \<noteq> scan_id" by (cases "sid = scan_id") simp_all
        with b have b': "broadcast wsm sid = Some r'" by simp
        have "r' \<noteq> r"
        proof
          assume "r' = r"
          with b' have "broadcast wsm sid = Some r" by simp
          from wsm_inv_inj [OF assms(1) this r] ne show False by simp
        qed
        then show "\<not> chClosed (chans ?w r')"
          using wsm_inv_open [OF assms(1) b'] by simp
        show "r' < nextChan ?w"
          using wsm_inv_lt [OF assms(1) b'] by simp
      next
        fix sid sid' r'
        assume b: "broadcast ?w sid = Some r'" and b': "broadcast ?w sid' = Some r'"
        from b have "broadcast wsm sid = Some r'" by (cases "sid = scan_id") simp_all
        moreover from b' have "broadcast wsm sid' = Some r'" by (cases "sid' = scan_id") simp_all
        ultimately show "sid = sid'" by (rule wsm_inv_inj [OF assms(1)])
      qed
      with eq show ?thesis by simp
    qed
  qed
qed

lemma wsm_reachable_inv: "wsm_reachable wsm \<Longrightarrow> wsm_inv wsm"
proof (induction rule: wsm_reachable.induct)
  case ws_init
  show ?case by (rule wsm_inv_init)
next
  case (ws_register wsm scan_id c)
  then show ?case by (intro wsm_inv_register)
next
  case (ws_unregister wsm scan_id c wsm')
  then show ?case by (intro wsm_inv_unregister [of wsm scan_id c wsm'])
next
  case (ws_broadcast wsm scan_id message wsm')
  then show ?case by (intro wsm_inv_broadcast [of wsm scan_id message wsm'])
qed

lemma example_wsm_clients: "clients example_wsm ''scan-0001'' = Some {1}"
  by (simp add: example_wsm_def RegisterClient_def NewWebSocketManager_def Let_def)

lemma example_wsm_broadcast: "broadcast example_wsm ''scan-0001'' = Some 0"
  by (simp add: example_wsm_def RegisterClient_def NewWebSocketManager_def Let_def)

lemma RegisterClient_broadcast_other:
  "scan_id' \<noteq> scan_id \<Longrightarrow> broadcast (RegisterClient wsm scan_id' c) scan_id = broadcast wsm scan_id"
  by (simp add: RegisterClient_def Let_def)

lemma UnregisterClient_broadcast_None:
  assumes "UnregisterClient wsm scan_id' c = Inr wsm'" "broadcast wsm scan_id = None"
  shows "broadcast wsm' scan_id = None"
  using assms
  by (auto simp add: UnregisterClient_def close_chan_def Let_def
      split: option.splits if_splits sum.splits)

lemma BroadcastToScan_broadcast:
  assumes "BroadcastToScan wsm scan_id' message = Inr wsm'"
  shows "broadcast wsm' scan_id = broadcast wsm scan_id"
  using assms
  by (auto simp add: BroadcastToScan_def split: option.splits sum.splits)

lemma ws_run_broadcast_None:
  assumes "broadcast wsm scan_id = None" "\<forall>call\<in>set calls. \<not> registers scan_id call"
    "ws_run wsm calls = Inr wsm'"
  shows "broadcast wsm' scan_id = None"
  using assms
proof (induction calls arbitrary: wsm)
  case Nil
  then show ?case by simp
next
  case (Cons call calls)
  show ?case
  proof (cases call)
    case (Register sid c)
    with Cons.prems have ne: "sid \<noteq> scan_id" by simp
    from Cons.prems Register have "ws_run (RegisterClient wsm sid c) calls = Inr wsm'" by simp
    moreover have "broadcast (RegisterClient wsm sid c) scan_id = None"
      using RegisterClient_broadcast_other [OF ne] Cons.prems(1) by simp
    ultimately show ?thesis using Cons.IH Cons.prems(2) by simp
  next
    case (Unregister sid c)
    with Cons.prems(3) obtain wsm1 where u: "UnregisterClient wsm sid c = Inr wsm1"
      and r: "ws_run wsm1 calls = Inr wsm'"
      by (auto split: sum.splits)
    from UnregisterClient_broadcast_None [OF u Cons.prems(1)] r Cons.IH Cons.prems(2)
    show ?thesis by simp
  next
    case (Broadcast sid message)
    with Cons.prems(3) obtain wsm1 where u: "BroadcastToScan wsm sid message = Inr wsm1"
      and r: "ws_run wsm1 calls = Inr wsm'"
      by (auto split: sum.splits)
    from BroadcastToScan_broadcast [OF u, of scan_id] Cons.prems(1) r Cons.IH Cons.prems(2)
    show ?thesis by simp
  qed
qed

section \<open>Handlers: auxiliary facts\<close>

lemma clean_loop_filter:
  "clean_loop TrimSpace cleanDomains domains
     = cleanDomains @ filter (\<lambda>d. d \<noteq> []) (map TrimSpace domains)"
  by (induction domains arbitrary: cleanDomains) (simp_all add: Let_def)

lemma StartScan_ok:
  assumes "Domains req \<noteq> []"
  shows "\<exists>chunks. StartScan orch req newID =
           Inr (None,
                orch\<lparr>activeScans := (activeScans orch)
                  ((if reqID req = [] then newID else reqID req) \<mapsto>
                    \<lparr> scanID = (if reqID req = [] then newID else reqID req), scanProgress = 0,
                      ActiveDroplets = [], Results = [],
                      scanTotalDomains = int (length (Domains req)), ScannedDomains = 0,
                      scanStatus = ''starting'' \<rparr>)\<rparr>,
                req\<lparr>reqID := (if reqID req = [] then newID else reqID req)\<rparr>,
                enumerate 0 chunks)
         \<and> chunks \<noteq> [] \<and> concat chunks = Domains req"
proof -
  let ?t = "int (length (Domains req))"
  let ?n = "lower_default ?t (raise_default ?t (clamp_default (Droplets req)))"
  from OptimizeDistribution_default [OF assms, of "Droplets req"]
  obtain chunks where od: "OptimizeDistribution NewScanOptimizer (Domains req) (Droplets req) = Inr (?n, chunks)"
    and cc: "createChunks (Domains req) ?n = Inr chunks" by blast
  have pos: "0 < ?n"
    using clamp_default_bounds [of "Droplets req"]
      raise_default_bounds [of ?t "clamp_default (Droplets req)"]
      lower_default_bounds [of ?t "raise_default ?t (clamp_default (Droplets req))"]
    by simp
  from createChunks_ok [OF pos, of "Domains req"] cc
  have len: "length chunks = nat ?n" and cat: "concat chunks = Domains req" by auto
  from len pos have ne: "chunks \<noteq> []" by auto
  show ?thesis
  proof (cases "reqID req = []")
    case True
    then show ?thesis using od ne cat
      by (intro exI [of _ chunks]) (simp add: StartScan_def Let_def)
  next
    case False
    then show ?thesis using od ne cat
      by (intro exI [of _ chunks]) (simp add: StartScan_def Let_def)
  qed
qed

lemma example_trim:
  "TrimSpace_ascii ''  '' = []" "TrimSpace_ascii [] = []"
  "TrimSpace_ascii '' a.com '' = ''a.com''" "TrimSpace_ascii ''b.com'' = ''b.com''"
  by (simp_all add: TrimSpace_ascii_def is_ascii_space_def)

lemma all_complete_iff: "all_complete workers \<longleftrightarrow> (\<forall>w\<in>set workers. \<not> wProgress w < 100)"
  by (induction workers) simp_all

lemma update_worker_all_complete:
  assumes "distinct (map wID workers)"
    and "\<forall>w\<in>set workers. wID w \<noteq> workerID \<longrightarrow> \<not> wProgress w < 100"
  shows "all_complete (update_worker rnd workerID 100 currentDomain workers)"
  using assms
proof (induction workers)
  case Nil
  show ?case by simp
next
  case (Cons w ws)
  show ?case
  proof (cases "wID w = workerID")
    case True
    from Cons.prems(1) have "wID w \<notin> wID ` set ws" by simp
    with True have "\<forall>v\<in>set ws. wID v \<noteq> workerID" by (auto simp add: image_iff)
    with Cons.prems have "\<forall>v\<in>set ws. \<not> wProgress v < 100" by simp
    with True show ?thesis by (simp add: all_complete_iff)
  next
    case False
    with Cons show ?thesis by simp
  qed
qed

lemma BroadcastToScan_enqueue:
  assumes "broadcast wsm scan_id = Some r" "\<not> chClosed (chans wsm r)" "length (chBuf (chans wsm r)) < 100"
  shows "BroadcastToScan wsm scan_id message =
     Inr (wsm\<lparr> chans := (chans wsm)(r := (chans wsm r)\<lparr> chBuf := chBuf (chans wsm r) @ [message] \<rparr>) \<rparr>)"
  using assms by (simp add: BroadcastToScan_def try_send_def)

lemma UpdateWorkerProgress_Some':
  assumes "activeScans orch scan_id = Some scan"
  shows "\<exists>scan'. activeScans (UpdateWorkerProgress rnd orch scan_id workerID progress currentDomain) scan_id
            = Some scan'
          \<and> ActiveDroplets scan' = update_worker rnd workerID progress currentDomain (ActiveDroplets scan)"
  using assms by (simp add: UpdateWorkerProgress_def Let_def)

lemma example_feed_orch:
  "orchestrator example_feed_handler =
     \<lparr> activeScans = [''scan-0001'' \<mapsto> example_feed_scan], mainServerIP = ''203.0.113.1'' \<rparr>"
  by (simp add: example_feed_handler_def example_orch_eq example_scan_def example_workers_def
      example_feed_scan_def example_feed_workers_def UpdateWorkerProgress_def Let_def
      fadd_def fmul_def fdiv_def float64_of_int_def int_of_float64_def)

lemma example_feed_wsm:
  "wsManager example_feed_handler =
     \<lparr> clients = [''scan-0001'' \<mapsto> {1}], broadcast = [''scan-0001'' \<mapsto> 0],
       chans = (\<lambda>r. \<lparr> chBuf = [], chClosed = False \<rparr>), nextChan = 1 \<rparr>"
  by (simp add: example_feed_handler_def example_wsm_def RegisterClient_def NewWebSocketManager_def
      Let_def fun_eq_iff)

lemma example_feed_complete:
  "CompleteWorker (\<lambda>x. x) example_feed_handler ''scan-0001'' ''scan-000-worker-1'' =
     Inr (JSON 200 [(''status'', JString ''completed'')],
          \<lparr> orchestrator =
              \<lparr> activeScans = [''scan-0001'' \<mapsto>
                  \<lparr> scanID = ''scan-0001'', scanProgress = 100,
                    ActiveDroplets =
                      [\<lparr> wID = ''scan-000-worker-0'', wIP = ''192.0.2.1'', wProgress = 100,
                         wCurrentDomain = ''completed'', wDomainsScanned = 1, wTotalDomains = 1,
                         wLogs = [], wCreatedAt = 10, wStatus = ''starting'' \<rparr>,
                       \<lparr> wID = ''scan-000-worker-1'', wIP = ''192.0.2.2'', wProgress = 100,
                         wCurrentDomain = ''completed'', wDomainsScanned = 1, wTotalDomains = 1,
                         wLogs = [], wCreatedAt = 12, wStatus = ''starting'' \<rparr>],
                    Results = [], scanTotalDomains = 2, ScannedDomains = 0,
                    scanStatus = ''completed'' \<rparr>],
                mainServerIP = ''203.0.113.1'' \<rparr>,
            wsManager =
              \<lparr> clients = [''scan-0001'' \<mapsto> {1}], broadcast = [''scan-0001'' \<mapsto> 0],
                chans = (\<lambda>r. \<lparr> chBuf = [], chClosed = False \<rparr>)
                  (0 := \<lparr> chBuf =
                     [\<lparr> wsType = ''scan_complete'',
                        wsData = StatusData
                          \<lparr> scanID = ''scan-0001'', scanProgress = 100,
                            ActiveDroplets =
                              [\<lparr> wID = ''scan-000-worker-0'', wIP = ''192.0.2.1'', wProgress = 100,
                                 wCurrentDomain = ''completed'', wDomainsScanned = 1,
                                 wTotalDomains = 1, wLogs = [], wCreatedAt = 10,
                                 wStatus = ''starting'' \<rparr>,
                               \<lparr> wID = ''scan-000-worker-1'', wIP = ''192.0.2.2'', wProgress = 100,
                                 wCurrentDomain = ''completed'', wDomainsScanned = 1,
                                 wTotalDomains = 1, wLogs = [], wCreatedAt = 12,
                                 wStatus = ''starting'' \<rparr>],
                            Results = [], scanTotalDomains = 2, ScannedDomains = 0,
                            scanStatus = ''completed'' \<rparr> \<rparr>],
                     chClosed = False \<rparr>),
                nextChan = 1 \<rparr> \<rparr>,
          [''scan-0001''])"
proof -
  have h: "example_feed_handler =
     \<lparr> orchestrator =
         \<lparr> activeScans = [''scan-0001'' \<mapsto> example_feed_scan], mainServerIP = ''203.0.113.1'' \<rparr>,
       wsManager =
         \<lparr> clients = [''scan-0001'' \<mapsto> {1}], broadcast = [''scan-0001'' \<mapsto> 0],
           chans = (\<lambda>r. \<lparr> chBuf = [], chClosed = False \<rparr>), nextChan = 1 \<rparr> \<rparr>"
    using example_feed_orch example_feed_wsm by (cases example_feed_handler) simp
  show ?thesis
    unfolding CompleteWorker_def h
    by (simp add: Let_def UpdateWorkerProgress_def GetScanStatus_def BroadcastToScan_def try_send_def
        example_feed_scan_def example_feed_workers_def
        fadd_def fmul_def fdiv_def float64_of_int_def int_of_float64_def)
qed

section \<open>Claims about the distribution planner\<close>

text \<open>
  Claim C1. For every domain list and every requested droplet count, \<open>OptimizeDistribution\<close>
  (with the settings of \<open>NewScanOptimizer\<close>, the only ones \<open>StartScan\<close> uses) returns
  without a panic a chunk list with one chunk per droplet whose concatenation is the input list:
  the chunk sizes sum to the input length, and chunk \<open>j\<close> is the contiguous slice of the input
  that starts where the chunks before it end. For the empty list it returns 0 droplets and no
  chunks.
\<close>

theorem C1_chunks_partition_input:
  "(\<exists>n chunks. OptimizeDistribution NewScanOptimizer domains requestedDroplets = Inr (n, chunks)
       \<and> int (length chunks) = n
       \<and> concat chunks = domains
       \<and> sum_list (map length chunks) = length domains
       \<and> (\<forall>j<length chunks.
             chunks ! j = take (length (chunks ! j))
                            (drop (sum_list (map length (take j chunks))) domains)))
   \<and> OptimizeDistribution NewScanOptimizer [] requestedDroplets = Inr (0, [])"
proof (intro conjI)
  show "OptimizeDistribution NewScanOptimizer [] requestedDroplets = Inr (0, [])"
    by (simp add: OptimizeDistribution_def)
  show "\<exists>n chunks. OptimizeDistribution NewScanOptimizer domains requestedDroplets = Inr (n, chunks)
       \<and> int (length chunks) = n
       \<and> concat chunks = domains
       \<and> sum_list (map length chunks) = length domains
       \<and> (\<forall>j<length chunks.
             chunks ! j = take (length (chunks ! j))
                            (drop (sum_list (map length (take j chunks))) domains))"
  proof (cases "domains = []")
    case True
    then show ?thesis by (simp add: OptimizeDistribution_def)
  next
    case False
    let ?t = "int (length domains)"
    let ?n = "lower_default ?t (raise_default ?t (clamp_default requestedDroplets))"
    from OptimizeDistribution_default [OF False, of requestedDroplets]
    obtain chunks where od: "OptimizeDistribution NewScanOptimizer domains requestedDroplets = Inr (?n, chunks)"
      and cc: "createChunks domains ?n = Inr chunks" by blast
    have pos: "0 < ?n"
      using clamp_default_bounds [of requestedDroplets]
        raise_default_bounds [of ?t "clamp_default requestedDroplets"]
        lower_default_bounds [of ?t "raise_default ?t (clamp_default requestedDroplets)"]
      by simp
    from createChunks_ok [OF pos, of domains] cc
    have len: "length chunks = nat ?n" and cat: "concat chunks = domains" by auto
    have sum: "sum_list (map length chunks) = length domains"
      using cat by (simp add: length_concat [symmetric])
    have sl: "\<forall>j<length chunks.
             chunks ! j = take (length (chunks ! j))
                            (drop (sum_list (map length (take j chunks))) domains)"
      using concat_nth_slice [of _ chunks] cat by simp
    show ?thesis using od len pos cat sum sl by simp
  qed
qed


theorem C1_chunks_partition_input_witness:
  "OptimizeDistribution NewScanOptimizer [''a.com'', ''b.com'', ''c.com''] 2
     = Inr (2, [[''a.com'', ''b.com''], [''c.com'']])
   \<and> concat [[''a.com'', ''b.com''], [''c.com'']] = [''a.com'', ''b.com'', ''c.com'']
   \<and> [[''a.com'', ''b.com''], [''c.com'']] ! 1
       = take (length ([[''a.com'', ''b.com''], [''c.com'']] ! 1))
           (drop (sum_list (map length (take 1 [[''a.com'', ''b.com''], [''c.com'']])))
              [''a.com'', ''b.com'', ''c.com''])"
proof -
  have e: "OptimizeDistribution NewScanOptimizer [''a.com'', ''b.com'', ''c.com''] 2
     = Inr (2, [[''a.com'', ''b.com''], [''c.com'']])"
    by code_simp
  show ?thesis
    using C1_chunks_partition_input [of "[''a.com'', ''b.com'', ''c.com'']" 2] e by simp
qed

text \<open>
  Claim C3, as stated, fails: the droplet count is capped at \<open>MaxDroplets\<close> after it has been
  raised, so for 3000 domains the planner returns 5 chunks of 600 domains each, above
  \<open>MaxDomainsPerDroplet = 500\<close>.
\<close>

theorem C3_chunk_bound_counterexample:
  "OptimizeDistribution NewScanOptimizer (replicate 3000 ''d'') 5
     = Inr (5, replicate 5 (replicate 600 ''d''))
   \<and> int (length (replicate 600 ''d'')) > MaxDomainsPerDroplet NewScanOptimizer"
proof -
  let ?ds = "replicate 3000 ''d''"
  have ne: "?ds \<noteq> []" by simp
  have n: "lower_default (int (length ?ds)) (raise_default (int (length ?ds)) (clamp_default 5)) = 5"
    by (simp add: lower_default_def raise_default_def clamp_default_def)
  from OptimizeDistribution_default [OF ne, of 5]
  obtain chunks where od: "OptimizeDistribution NewScanOptimizer ?ds 5 = Inr (5, chunks)"
    and cc: "createChunks ?ds 5 = Inr chunks" unfolding n by blast
  from createChunks_ok [of 5 ?ds] cc
  have len: "length chunks = 5" and cat: "concat chunks = ?ds"
    and sz: "\<And>j. j < 5 \<Longrightarrow> length (chunks ! j) = 600"
    by auto
  have "chunks = replicate 5 (replicate 600 ''d'')"
  proof (rule nth_equalityI)
    show "length chunks = length (replicate 5 (replicate 600 ''d''))" using len by simp
  next
    fix j assume "j < length chunks"
    then have j: "j < 5" using len by simp
    then have "chunks ! j \<in> set chunks" using len by simp
    then have "set (chunks ! j) \<subseteq> set (concat chunks)" by auto
    then have "\<forall>y\<in>set (chunks ! j). y = ''d''" unfolding cat by auto
    with sz [OF j] have "chunks ! j = replicate 600 ''d''"
      by (intro replicate_eqI) simp_all
    then show "chunks ! j = replicate 5 (replicate 600 ''d'') ! j" using j by simp
  qed
  with od show ?thesis by (simp add: NewScanOptimizer_def)
qed

text \<open>
  Claim C3, amended. For every non-empty domain list of size \<open>N\<close> and every requested count,
  the planner returns \<open>n\<close> with \<open>MinDroplets \<le> n \<le> MaxDroplets\<close> (1 and 5); every chunk
  has \<open>N div n\<close> or \<open>N div n + 1\<close> domains; and the average \<open>N div n\<close> is at most
  \<open>MaxDomainsPerDroplet\<close> (500) whenever \<open>N \<le> MaxDomainsPerDroplet * MaxDroplets\<close> (2500).
\<close>

theorem C3_node_count_and_average_bounds:
  assumes "domains \<noteq> []"
  shows "\<exists>n chunks. OptimizeDistribution NewScanOptimizer domains requestedDroplets = Inr (n, chunks)
       \<and> MinDroplets NewScanOptimizer \<le> n \<and> n \<le> MaxDroplets NewScanOptimizer
       \<and> (\<forall>c\<in>set chunks. int (length c) = int (length domains) div n
                           \<or> int (length c) = int (length domains) div n + 1)
       \<and> (int (length domains)
             \<le> MaxDomainsPerDroplet NewScanOptimizer * MaxDroplets NewScanOptimizer
           \<longrightarrow> int (length domains) div n \<le> MaxDomainsPerDroplet NewScanOptimizer)"
proof -
  let ?t = "int (length domains)"
  let ?n1 = "clamp_default requestedDroplets"
  let ?n = "lower_default ?t (raise_default ?t ?n1)"
  from OptimizeDistribution_default [OF assms, of requestedDroplets]
  obtain chunks where od: "OptimizeDistribution NewScanOptimizer domains requestedDroplets = Inr (?n, chunks)"
    and cc: "createChunks domains ?n = Inr chunks" by blast
  have b1: "1 \<le> ?n1" "?n1 \<le> 5" using clamp_default_bounds [of requestedDroplets] by simp_all
  have b2: "1 \<le> raise_default ?t ?n1" "raise_default ?t ?n1 \<le> 5"
    using raise_default_bounds [of ?t ?n1] b1 by simp_all
  have b3: "1 \<le> ?n" "?n \<le> 5"
    using lower_default_bounds [of ?t "raise_default ?t ?n1"] b2 by simp_all
  from createChunks_ok [of ?n domains] cc b3(1)
  have len: "length chunks = nat ?n"
    and sz: "\<And>j. j < nat ?n \<Longrightarrow>
      int (length (chunks ! j)) = ?t div ?n + (if int j < ?t mod ?n then 1 else 0)"
    by auto
  have szs: "\<forall>c\<in>set chunks. int (length c) = ?t div ?n \<or> int (length c) = ?t div ?n + 1"
  proof
    fix c assume "c \<in> set chunks"
    then obtain j where "j < length chunks" "c = chunks ! j" by (auto simp add: in_set_conv_nth)
    with sz [of j] len show "int (length c) = ?t div ?n \<or> int (length c) = ?t div ?n + 1"
      by (simp split: if_splits)
  qed
  have avg: "?t \<le> 2500 \<longrightarrow> ?t div ?n \<le> 500"
    using lower_raise_avg [of ?t ?n1] b1 by simp
  show ?thesis
    using od b3 szs avg by (simp add: NewScanOptimizer_def)
qed


theorem C3_node_count_and_average_bounds_witness:
  "[''a.com'', ''b.com'', ''c.com''] \<noteq> []
   \<and> OptimizeDistribution NewScanOptimizer [''a.com'', ''b.com'', ''c.com''] 2
       = Inr (2, [[''a.com'', ''b.com''], [''c.com'']])
   \<and> MinDroplets NewScanOptimizer \<le> 2 \<and> 2 \<le> MaxDroplets NewScanOptimizer
   \<and> int (length [''a.com'', ''b.com'', ''c.com''])
        \<le> MaxDomainsPerDroplet NewScanOptimizer * MaxDroplets NewScanOptimizer
   \<and> int (length [''a.com'', ''b.com'', ''c.com'']) div 2 \<le> MaxDomainsPerDroplet NewScanOptimizer"
proof -
  have ne: "[''a.com'', ''b.com'', ''c.com''] \<noteq> []" by simp
  have e: "OptimizeDistribution NewScanOptimizer [''a.com'', ''b.com'', ''c.com''] 2
     = Inr (2, [[''a.com'', ''b.com''], [''c.com'']])"
    by code_simp
  show ?thesis
    using C3_node_count_and_average_bounds [OF ne, of 2] e by (simp add: NewScanOptimizer_def)
qed

text \<open>
  Claim C4, as stated, fails: with 10 domains and 5 requested droplets the lowering step is
  skipped, because it is guarded by \<open>totalDomains > MinDomainsPerDroplet\<close> and 10 is not
  above 50; the planner returns 5 droplets, not 1.
\<close>

theorem C4_ten_domains_counterexample:
  "OptimizeDistribution NewScanOptimizer
     [''d0'', ''d1'', ''d2'', ''d3'', ''d4'', ''d5'', ''d6'', ''d7'', ''d8'', ''d9''] 5
   = Inr (5, [[''d0'', ''d1''], [''d2'', ''d3''], [''d4'', ''d5''], [''d6'', ''d7''], [''d8'', ''d9'']])
   \<and> OptimizeDistribution NewScanOptimizer
     [''d0'', ''d1'', ''d2'', ''d3'', ''d4'', ''d5'', ''d6'', ''d7'', ''d8'', ''d9''] 5
   \<noteq> Inr (1, [[''d0'', ''d1'', ''d2'', ''d3'', ''d4'', ''d5'', ''d6'', ''d7'', ''d8'', ''d9'']])"
  by code_simp

text \<open>
  Claim C4, amended. For 10 domains, 5 requested droplets and \<open>MinDomainsPerDroplet = 50\<close>
  (the other settings at their defaults), the planner returns 5 droplets and five chunks of two
  consecutive domains each, in order.
\<close>

theorem C4_ten_domains_five_chunks:
  assumes "length domains = 10"
  shows "MinDomainsPerDroplet NewScanOptimizer = 50
    \<and> OptimizeDistribution NewScanOptimizer domains 5
       = Inr (5, [take 2 domains, take 2 (drop 2 domains), take 2 (drop 4 domains),
                  take 2 (drop 6 domains), take 2 (drop 8 domains)])"
proof -
  have ne: "domains \<noteq> []" using assms by auto
  have n: "lower_default (int (length domains)) (raise_default (int (length domains)) (clamp_default 5)) = 5"
    by (simp add: assms lower_default_def raise_default_def clamp_default_def)
  from OptimizeDistribution_default [OF ne, of 5]
  obtain chunks where od: "OptimizeDistribution NewScanOptimizer domains 5 = Inr (5, chunks)"
    and cc: "createChunks domains 5 = Inr chunks" unfolding n by blast
  from createChunks_ok [of 5 domains] cc assms
  have len: "length chunks = 5" and cat: "concat chunks = domains"
    and sz: "\<And>j. j < 5 \<Longrightarrow> length (chunks ! j) = 2"
    by auto
  from len obtain c0 c1 c2 c3 c4 where cs: "chunks = [c0, c1, c2, c3, c4]"
    by (auto simp add: length_Suc_conv eval_nat_numeral)
  have l: "length c0 = 2" "length c1 = 2" "length c2 = 2" "length c3 = 2" "length c4 = 2"
    using sz [of 0] sz [of 1] sz [of 2] sz [of 3] sz [of 4] by (simp_all add: cs)
  have d: "domains = c0 @ c1 @ c2 @ c3 @ c4" using cat by (simp add: cs)
  have "chunks = [take 2 domains, take 2 (drop 2 domains), take 2 (drop 4 domains),
                  take 2 (drop 6 domains), take 2 (drop 8 domains)]"
    unfolding cs d using l by simp
  with od show ?thesis by (simp add: NewScanOptimizer_def)
qed

theorem C4_ten_domains_five_chunks_witness:
  "length [''d0'', ''d1'', ''d2'', ''d3'', ''d4'', ''d5'', ''d6'', ''d7'', ''d8'', ''d9''] = 10
   \<and> OptimizeDistribution NewScanOptimizer
        [''d0'', ''d1'', ''d2'', ''d3'', ''d4'', ''d5'', ''d6'', ''d7'', ''d8'', ''d9''] 5
      = Inr (5, [[''d0'', ''d1''], [''d2'', ''d3''], [''d4'', ''d5''], [''d6'', ''d7''], [''d8'', ''d9'']])"
  using C4_ten_domains_five_chunks
    [of "[''d0'', ''d1'', ''d2'', ''d3'', ''d4'', ''d5'', ''d6'', ''d7'', ''d8'', ''d9'']"]
  by simp

text \<open>
  Claim C10. The planner never divides by zero. For every domain list and every requested count
  (zero and negative ones too) \<open>calculateOptimalDroplets\<close> returns, without a panic, a count
  of at least \<open>MinDroplets\<close>, which is at least 1; the division and the modulo by that count
  in \<open>createChunks\<close> therefore succeed, and so do \<open>createChunks\<close> and
  \<open>OptimizeDistribution\<close> as a whole. On the empty list \<open>OptimizeDistribution\<close> returns
  before any division, whatever the settings are (even all-zero ones).
\<close>

theorem C10_planner_never_divides_by_zero:
  "(\<exists>n. calculateOptimalDroplets NewScanOptimizer (int (length domains)) requestedDroplets = Inr n
        \<and> 1 \<le> MinDroplets NewScanOptimizer \<and> MinDroplets NewScanOptimizer \<le> n
        \<and> go_div (int (length domains)) n = Inr (int (length domains) div n)
        \<and> go_mod (int (length domains)) n = Inr (int (length domains) mod n)
        \<and> (\<exists>chunks. createChunks domains n = Inr chunks))
   \<and> (\<exists>res. OptimizeDistribution NewScanOptimizer domains requestedDroplets = Inr res)
   \<and> OptimizeDistribution so [] requestedDroplets = Inr (0, [])"
proof (intro conjI)
  let ?t = "int (length domains)"
  have t: "0 \<le> ?t" by simp
  from calc_default [OF t, of requestedDroplets]
  obtain n where n: "calculateOptimalDroplets NewScanOptimizer ?t requestedDroplets = Inr n"
    "1 \<le> n" "n \<le> 5" by blast
  then have pos: "0 < n" by simp
  from createChunks_ok [OF pos, of domains] obtain chunks where c: "createChunks domains n = Inr chunks"
    by blast
  show "\<exists>n. calculateOptimalDroplets NewScanOptimizer ?t requestedDroplets = Inr n
        \<and> 1 \<le> MinDroplets NewScanOptimizer \<and> MinDroplets NewScanOptimizer \<le> n
        \<and> go_div ?t n = Inr (?t div n)
        \<and> go_mod ?t n = Inr (?t mod n)
        \<and> (\<exists>chunks. createChunks domains n = Inr chunks)"
    using n c go_div_pos [OF t pos] go_mod_pos [OF t pos] by (auto simp add: NewScanOptimizer_def)
  show "\<exists>res. OptimizeDistribution NewScanOptimizer domains requestedDroplets = Inr res"
    using n(1) c by (simp add: OptimizeDistribution_def Let_def)
  show "OptimizeDistribution so [] requestedDroplets = Inr (0, [])"
    by (simp add: OptimizeDistribution_def)
qed


section \<open>Claims about the orchestrator\<close>

text \<open>
  Claim C2. In every registry the orchestrator can reach, after \<open>UpdateWorkerProgress\<close> on
  a registered scan the scan is still registered with as many workers as before, and its overall
  progress is the arithmetic mean of the progress values of its registered workers (computed in
  floating point, whatever the rounding; with exact arithmetic the mean is the sum divided by the
  number); if the scan has no registered worker its overall progress is 0.
\<close>

theorem C2_overall_progress_is_mean:
  assumes "reachable rnd orch" and "activeScans orch scan_id = Some scan"
  shows "\<exists>scan'. activeScans (UpdateWorkerProgress rnd orch scan_id workerID progress currentDomain) scan_id
              = Some scan'
       \<and> length (ActiveDroplets scan') = length (ActiveDroplets scan)
       \<and> (ActiveDroplets scan' \<noteq> [] \<longrightarrow>
            scanProgress scan' = arithmetic_mean rnd (map wProgress (ActiveDroplets scan')))
       \<and> (ActiveDroplets scan' = [] \<longrightarrow> scanProgress scan' = 0)
       \<and> arithmetic_mean (\<lambda>x. x) (map wProgress (ActiveDroplets scan'))
           = sum_list (map wProgress (ActiveDroplets scan')) / real (length (ActiveDroplets scan'))"
proof -
  have inv: "progress_inv orch" by (rule reachable_progress_inv [OF assms(1)])
  from inv assms(2) have z: "ActiveDroplets scan = [] \<longrightarrow> scanProgress scan = 0"
    by (simp add: progress_inv_def)
  show ?thesis
    using UpdateWorkerProgress_Some [OF assms(2), of rnd workerID progress currentDomain] z
    by (auto simp add: Let_def arithmetic_mean_exact)
qed

theorem C2_overall_progress_is_mean_witness:
  "reachable (\<lambda>x. x) example_orch
   \<and> activeScans example_orch ''scan-0001'' = Some example_scan
   \<and> (\<exists>scan'. activeScans
         (UpdateWorkerProgress (\<lambda>x. x) example_orch ''scan-0001'' ''scan-000-worker-1'' 100 ''b.com'')
         ''scan-0001'' = Some scan'
        \<and> map wProgress (ActiveDroplets scan') = [50, 100]
        \<and> scanProgress scan' = 75)"
proof -
  have r: "reachable (\<lambda>x. x) example_orch" by (rule example_orch_reachable)
  from C2_overall_progress_is_mean [OF r example_orch_scan, of "''scan-000-worker-1''" 100 "''b.com''"]
  obtain scan' where s: "activeScans
         (UpdateWorkerProgress (\<lambda>x. x) example_orch ''scan-0001'' ''scan-000-worker-1'' 100 ''b.com'')
         ''scan-0001'' = Some scan'"
    and m: "ActiveDroplets scan' \<noteq> [] \<longrightarrow>
            scanProgress scan' = arithmetic_mean (\<lambda>x. x) (map wProgress (ActiveDroplets scan'))"
    by blast
  have u: "map wProgress (update_worker (\<lambda>x. x) ''scan-000-worker-1'' 100 ''b.com'' example_workers)
             = [50, 100]"
    by (simp add: example_workers_def)
  have "ActiveDroplets scan' = update_worker (\<lambda>x. x) ''scan-000-worker-1'' 100 ''b.com'' example_workers"
    using s unfolding UpdateWorkerProgress_Some [OF example_orch_scan] Let_def
    by (auto simp add: example_scan_def split: if_splits)
  then have p: "map wProgress (ActiveDroplets scan') = [50, 100]"
    by (simp only: u)
  then have "length (map wProgress (ActiveDroplets scan')) = 2" by simp
  then have ne: "ActiveDroplets scan' \<noteq> []" by auto
  have sp: "scanProgress scan' = 75"
    using m ne unfolding p
    by (simp add: arithmetic_mean_def fadd_def fdiv_def float64_of_int_def)
  show ?thesis
  proof (intro conjI)
    show "reachable (\<lambda>x. x) example_orch" by (rule r)
    show "activeScans example_orch ''scan-0001'' = Some example_scan"
      by (rule example_orch_scan)
    show "\<exists>scan'. activeScans
         (UpdateWorkerProgress (\<lambda>x. x) example_orch ''scan-0001'' ''scan-000-worker-1'' 100 ''b.com'')
         ''scan-0001'' = Some scan'
        \<and> map wProgress (ActiveDroplets scan') = [50, 100]
        \<and> scanProgress scan' = 75"
      by (rule exI [of _ scan']) (intro conjI s p sp)
  qed
qed

text \<open>
  Claim C9. \<open>UpdateWorkerProgress\<close> on a scan ID that is not registered returns the registry
  unchanged (the method has no result, so there is no error to signal). On a registered scan with
  a worker ID that none of its workers carries, it changes nothing but the overall progress of
  that scan: every worker and every other field and scan stay as they are, and the progress is
  recomputed as the mean over the existing workers (it is left alone if there are none).
\<close>

theorem C9_unknown_job_or_worker:
  "(activeScans orch scan_id = None \<longrightarrow>
      UpdateWorkerProgress rnd orch scan_id workerID progress currentDomain = orch)
   \<and> (\<forall>scan. activeScans orch scan_id = Some scan \<and> workerID \<notin> wID ` set (ActiveDroplets scan) \<longrightarrow>
        UpdateWorkerProgress rnd orch scan_id workerID progress currentDomain
          = orch\<lparr>activeScans := (activeScans orch)(scan_id \<mapsto>
               (if ActiveDroplets scan \<noteq> []
                then scan\<lparr>scanProgress := arithmetic_mean rnd (map wProgress (ActiveDroplets scan))\<rparr>
                else scan))\<rparr>)"
proof (intro conjI allI impI)
  assume "activeScans orch scan_id = None"
  then show "UpdateWorkerProgress rnd orch scan_id workerID progress currentDomain = orch"
    by (rule UpdateWorkerProgress_None)
next
  fix scan
  assume a: "activeScans orch scan_id = Some scan \<and> workerID \<notin> wID ` set (ActiveDroplets scan)"
  then have u: "update_worker rnd workerID progress currentDomain (ActiveDroplets scan) = ActiveDroplets scan"
    by (simp add: update_worker_absent)
  show "UpdateWorkerProgress rnd orch scan_id workerID progress currentDomain
          = orch\<lparr>activeScans := (activeScans orch)(scan_id \<mapsto>
               (if ActiveDroplets scan \<noteq> []
                then scan\<lparr>scanProgress := arithmetic_mean rnd (map wProgress (ActiveDroplets scan))\<rparr>
                else scan))\<rparr>"
    using a by (simp add: UpdateWorkerProgress_def Let_def u arithmetic_mean_def sum_progress_foldl)
qed

theorem C9_unknown_job_or_worker_witness:
  "activeScans example_orch ''scan-9999'' = None
   \<and> UpdateWorkerProgress (\<lambda>x. x) example_orch ''scan-9999'' ''scan-000-worker-0'' 80 ''a.com''
       = example_orch
   \<and> activeScans example_orch ''scan-0001'' = Some example_scan
   \<and> ''scan-000-worker-7'' \<notin> wID ` set (ActiveDroplets example_scan)
   \<and> ActiveDroplets example_scan \<noteq> []
   \<and> arithmetic_mean (\<lambda>x. x) (map wProgress (ActiveDroplets example_scan)) = 25
   \<and> UpdateWorkerProgress (\<lambda>x. x) example_orch ''scan-0001'' ''scan-000-worker-7'' 80 ''a.com''
       = example_orch\<lparr>activeScans := (activeScans example_orch)(''scan-0001'' \<mapsto>
            example_scan\<lparr>scanProgress := 25\<rparr>)\<rparr>"
proof -
  have n: "activeScans example_orch ''scan-9999'' = None" by (simp add: example_orch_eq)
  have w: "''scan-000-worker-7'' \<notin> wID ` set (ActiveDroplets example_scan)"
    by (simp add: example_scan_def example_workers_def)
  have ne: "ActiveDroplets example_scan \<noteq> []"
    by (simp add: example_scan_def example_workers_def)
  have m: "arithmetic_mean (\<lambda>x. x) (map wProgress (ActiveDroplets example_scan)) = 25"
    by (simp add: example_scan_def example_workers_def arithmetic_mean_def fadd_def fdiv_def
        float64_of_int_def)
  note c = C9_unknown_job_or_worker [of example_orch _ "\<lambda>x. x" _ 80 "''a.com''"]
  have a: "UpdateWorkerProgress (\<lambda>x. x) example_orch ''scan-9999'' ''scan-000-worker-0'' 80 ''a.com''
       = example_orch"
    using c [of "''scan-9999''" "''scan-000-worker-0''"] n by simp
  have b: "UpdateWorkerProgress (\<lambda>x. x) example_orch ''scan-0001'' ''scan-000-worker-7'' 80 ''a.com''
       = example_orch\<lparr>activeScans := (activeScans example_orch)(''scan-0001'' \<mapsto>
            example_scan\<lparr>scanProgress := 25\<rparr>)\<rparr>"
    using c [of "''scan-0001''" "''scan-000-worker-7''"] example_orch_scan w ne m by simp
  show ?thesis
    by (intro conjI n a example_orch_scan w ne m b)
qed

text \<open>
  Claim C5. \<open>CleanupScan\<close> is idempotent. On a scan ID that is not registered it returns no
  error and leaves the registry (and the provider) unchanged. On any scan ID it returns no error,
  afterwards the scan is not registered and the other scans are untouched, and a second call on the
  result returns no error and changes nothing.
\<close>

theorem C5_cleanup_idempotent:
  "(activeScans orch scan_id = None \<longrightarrow> CleanupScan svc (orch, p) scan_id = (None, orch, p))
   \<and> (case CleanupScan svc (orch, p) scan_id of
        (err, orch', p') \<Rightarrow>
          err = None
          \<and> activeScans orch' scan_id = None
          \<and> (\<forall>other. other \<noteq> scan_id \<longrightarrow> activeScans orch' other = activeScans orch other)
          \<and> CleanupScan svc (orch', p') scan_id = (None, orch', p'))"
  by (auto simp add: CleanupScan_def split: option.splits)

theorem C5_cleanup_idempotent_witness:
  "activeScans (New ''203.0.113.1'') ''scan-0001'' = None
   \<and> CleanupScan example_service (New ''203.0.113.1'', example_droplets) ''scan-0001''
       = (None, New ''203.0.113.1'', example_droplets)
   \<and> CleanupScan example_service (example_orch, example_droplets) ''scan-0001''
       = (None, New ''203.0.113.1'',
          [(\<lparr> dropletID = 7003, dropletName = ''scan-111-worker-0'' \<rparr>,
            [''nuclei-worker'', ''scan-1110''])])
   \<and> activeScans (New ''203.0.113.1'') ''scan-0002'' = activeScans example_orch ''scan-0002''
   \<and> CleanupScan example_service
        (New ''203.0.113.1'',
         [(\<lparr> dropletID = 7003, dropletName = ''scan-111-worker-0'' \<rparr>,
           [''nuclei-worker'', ''scan-1110''])]) ''scan-0001''
       = (None, New ''203.0.113.1'',
          [(\<lparr> dropletID = 7003, dropletName = ''scan-111-worker-0'' \<rparr>,
            [''nuclei-worker'', ''scan-1110''])])"
proof -
  have n: "activeScans (New ''203.0.113.1'') ''scan-0001'' = None" by (simp add: New_def)
  have o: "activeScans (New ''203.0.113.1'') ''scan-0002'' = activeScans example_orch ''scan-0002''"
    by (simp add: New_def example_orch_eq)
  have e: "\<lparr> activeScans = Map.empty, mainServerIP = ''203.0.113.1'' \<rparr> = New ''203.0.113.1''"
    by (simp add: New_def)
  show ?thesis
    using C5_cleanup_idempotent [of "New ''203.0.113.1''" "''scan-0001''" example_service example_droplets]
      C5_cleanup_idempotent [of example_orch "''scan-0001''" example_service example_droplets]
      n o
    unfolding example_cleanup e
    by simp
qed

section \<open>Claims about the WebSocket manager\<close>

text \<open>
  Claim C8. In every manager reachable from \<open>NewWebSocketManager\<close>, when the only
  connection of a scan is unregistered, the scan has an open broadcast channel and
  \<open>UnregisterClient\<close> returns without a panic a manager in which the scan has neither a
  client set nor a broadcast channel and that channel is closed. In that manager every
  \<open>BroadcastToScan\<close> to the scan, and every sequence of them, returns without a panic and
  leaves the manager exactly as it is; the same holds after any further calls of the manager's
  methods that have returned, as long as none of them subscribes a connection to the scan again.
\<close>

theorem C8_unsubscribe_last_then_publish_noop:
  assumes "wsm_reachable wsm" and "clients wsm scan_id = Some {c}"
  shows "\<exists>r wsm'. broadcast wsm scan_id = Some r
        \<and> \<not> chClosed (chans wsm r)
        \<and> UnregisterClient wsm scan_id c = Inr wsm'
        \<and> clients wsm' scan_id = None
        \<and> broadcast wsm' scan_id = None
        \<and> chClosed (chans wsm' r)
        \<and> (\<forall>message. BroadcastToScan wsm' scan_id message = Inr wsm')
        \<and> (\<forall>messages. broadcast_all wsm' scan_id messages = Inr wsm')
        \<and> (\<forall>calls wsm'' message.
              (\<forall>call\<in>set calls. \<not> registers scan_id call) \<and> ws_run wsm' calls = Inr wsm''
              \<longrightarrow> BroadcastToScan wsm'' scan_id message = Inr wsm'')"
proof -
  have inv: "wsm_inv wsm" by (rule wsm_reachable_inv [OF assms(1)])
  from wsm_inv_dom [OF inv, of scan_id] assms(2) obtain r where r: "broadcast wsm scan_id = Some r"
    by (cases "broadcast wsm scan_id") simp_all
  have open_r: "\<not> chClosed (chans wsm r)" by (rule wsm_inv_open [OF inv r])
  let ?wsm' = "wsm\<lparr> chans := (chans wsm)(r := (chans wsm r)\<lparr> chClosed := True \<rparr>),
               clients := (clients wsm)(scan_id := None),
               broadcast := (broadcast wsm)(scan_id := None) \<rparr>"
  have u: "UnregisterClient wsm scan_id c = Inr ?wsm'"
    by (rule UnregisterClient_last [OF assms(2) r open_r])
  have n: "broadcast ?wsm' scan_id = None" by simp
  show ?thesis
  proof (intro exI [of _ r] exI [of _ ?wsm'] conjI allI impI)
    show "broadcast wsm scan_id = Some r" by (rule r)
    show "\<not> chClosed (chans wsm r)" by (rule open_r)
    show "UnregisterClient wsm scan_id c = Inr ?wsm'" by (rule u)
    show "clients ?wsm' scan_id = None" by simp
    show "broadcast ?wsm' scan_id = None" by (rule n)
    show "chClosed (chans ?wsm' r)" by simp
    show "BroadcastToScan ?wsm' scan_id message = Inr ?wsm'" for message
      by (rule BroadcastToScan_None [OF n])
    show "broadcast_all ?wsm' scan_id messages = Inr ?wsm'" for messages
      by (rule broadcast_all_None [OF n])
    show "BroadcastToScan wsm'' scan_id message = Inr wsm''"
      if "(\<forall>call\<in>set calls. \<not> registers scan_id call) \<and> ws_run ?wsm' calls = Inr wsm''"
      for calls wsm'' message
      using that by (intro BroadcastToScan_None ws_run_broadcast_None [OF n, of calls wsm'']) simp_all
  qed
qed

theorem C8_unsubscribe_last_then_publish_noop_witness:
  "wsm_reachable example_wsm
   \<and> clients example_wsm ''scan-0001'' = Some {1}
   \<and> broadcast example_wsm ''scan-0001'' = Some 0
   \<and> \<not> registers ''scan-0001'' (Broadcast ''scan-0001'' example_message)
   \<and> \<not> registers ''scan-0001'' (Register ''scan-0002'' 2)
   \<and> (\<exists>wsm'. UnregisterClient example_wsm ''scan-0001'' 1 = Inr wsm'
          \<and> clients wsm' ''scan-0001'' = None
          \<and> broadcast wsm' ''scan-0001'' = None
          \<and> chClosed (chans wsm' 0)
          \<and> BroadcastToScan wsm' ''scan-0001'' example_message = Inr wsm'
          \<and> broadcast_all wsm' ''scan-0001'' [example_message, example_message] = Inr wsm'
          \<and> ws_run wsm' [Broadcast ''scan-0001'' example_message, Register ''scan-0002'' 2]
              = Inr (RegisterClient wsm' ''scan-0002'' 2)
          \<and> BroadcastToScan (RegisterClient wsm' ''scan-0002'' 2) ''scan-0001'' example_message
              = Inr (RegisterClient wsm' ''scan-0002'' 2))"
proof -
  have re: "wsm_reachable example_wsm"
    unfolding example_wsm_def by (intro wsm_reachable.ws_register wsm_reachable.ws_init)
  from C8_unsubscribe_last_then_publish_noop [OF re example_wsm_clients]
  obtain r wsm' where r: "broadcast example_wsm ''scan-0001'' = Some r"
    and u: "UnregisterClient example_wsm ''scan-0001'' 1 = Inr wsm'"
    and c: "clients wsm' ''scan-0001'' = None"
    and b: "broadcast wsm' ''scan-0001'' = None"
    and cl: "chClosed (chans wsm' r)"
    and p: "\<forall>message. BroadcastToScan wsm' ''scan-0001'' message = Inr wsm'"
    and q: "\<forall>messages. broadcast_all wsm' ''scan-0001'' messages = Inr wsm'"
    and l: "\<forall>calls wsm'' message.
              (\<forall>call\<in>set calls. \<not> registers ''scan-0001'' call) \<and> ws_run wsm' calls = Inr wsm''
              \<longrightarrow> BroadcastToScan wsm'' ''scan-0001'' message = Inr wsm''"
    by blast
  from r have r0: "r = 0" by (simp add: example_wsm_broadcast)
  have run: "ws_run wsm' [Broadcast ''scan-0001'' example_message, Register ''scan-0002'' 2]
              = Inr (RegisterClient wsm' ''scan-0002'' 2)"
    by (simp add: p [rule_format])
  have nr: "\<forall>call\<in>set [Broadcast ''scan-0001'' example_message, Register ''scan-0002'' 2].
      \<not> registers ''scan-0001'' call"
    by simp
  have later: "BroadcastToScan (RegisterClient wsm' ''scan-0002'' 2) ''scan-0001'' example_message
              = Inr (RegisterClient wsm' ''scan-0002'' 2)"
    using l [rule_format, of "[Broadcast ''scan-0001'' example_message, Register ''scan-0002'' 2]"
        "RegisterClient wsm' ''scan-0002'' 2" example_message] nr run
    by blast
  show ?thesis
  proof (intro conjI)
    show "wsm_reachable example_wsm" by (rule re)
    show "clients example_wsm ''scan-0001'' = Some {1}" by (rule example_wsm_clients)
    show "broadcast example_wsm ''scan-0001'' = Some 0" by (rule example_wsm_broadcast)
    show "\<not> registers ''scan-0001'' (Broadcast ''scan-0001'' example_message)" by simp
    show "\<not> registers ''scan-0001'' (Register ''scan-0002'' 2)" by simp
    show "\<exists>wsm'. UnregisterClient example_wsm ''scan-0001'' 1 = Inr wsm'
          \<and> clients wsm' ''scan-0001'' = None
          \<and> broadcast wsm' ''scan-0001'' = None
          \<and> chClosed (chans wsm' 0)
          \<and> BroadcastToScan wsm' ''scan-0001'' example_message = Inr wsm'
          \<and> broadcast_all wsm' ''scan-0001'' [example_message, example_message] = Inr wsm'
          \<and> ws_run wsm' [Broadcast ''scan-0001'' example_message, Register ''scan-0002'' 2]
              = Inr (RegisterClient wsm' ''scan-0002'' 2)
          \<and> BroadcastToScan (RegisterClient wsm' ''scan-0002'' 2) ''scan-0001'' example_message
              = Inr (RegisterClient wsm' ''scan-0002'' 2)"
      using u c b cl [unfolded r0] p [rule_format, of example_message]
        q [rule_format, of "[example_message, example_message]"] run later
      by (intro exI [of _ wsm'] conjI)
  qed
qed

section \<open>Claims about the handlers\<close>

text \<open>
  Claim C6. A submission whose domain list is empty, or whose domains are all empty after
  \<open>strings.TrimSpace\<close>, is answered with status 400 and an error message; the handler's state
  is unchanged and no provisioning task is launched. A submission with at least one domain that
  is non-empty after trimming is answered with status 200 and the job ID (the generated UUID); the
  scan is registered under that ID and the trimmed non-empty domains are handed, in order, to at
  least one provisioning task.
\<close>

theorem C6_submission_validation:
  "((\<forall>d\<in>set (Domains req). TrimSpace d = []) \<longrightarrow>
      (\<exists>msg. Handler_StartScan TrimSpace h (Inr req) newID newID'
               = Inr (JSON 400 [(''error'', JString msg)], h, [])))
   \<and> ((\<exists>d\<in>set (Domains req). TrimSpace d \<noteq> []) \<longrightarrow>
      (\<exists>jobID h' tasks.
         Handler_StartScan TrimSpace h (Inr req) newID newID'
           = Inr (JSON 200 [(''scan_id'', JString jobID),
                            (''message'', JString ''Scan started successfully''),
                            (''domains_count'',
                               JInt (int (length (filter (\<lambda>d. d \<noteq> []) (map TrimSpace (Domains req))))))],
                  h', tasks)
         \<and> jobID = (if newID = [] then newID' else newID)
         \<and> activeScans (orchestrator h') jobID \<noteq> None
         \<and> wsManager h' = wsManager h
         \<and> tasks \<noteq> []
         \<and> concat (map snd tasks) = filter (\<lambda>d. d \<noteq> []) (map TrimSpace (Domains req))))"
proof (intro conjI impI)
  let ?clean = "filter (\<lambda>d. d \<noteq> []) (map TrimSpace (Domains req))"
  have cl: "clean_loop TrimSpace [] (Domains req) = ?clean"
    by (simp add: clean_loop_filter)
  {
    assume a: "\<forall>d\<in>set (Domains req). TrimSpace d = []"
    then have e: "?clean = []" by (auto simp add: filter_empty_conv)
    show "\<exists>msg. Handler_StartScan TrimSpace h (Inr req) newID newID'
               = Inr (JSON 400 [(''error'', JString msg)], h, [])"
      by (cases "Domains req = []") (simp_all add: Handler_StartScan_def Let_def cl e)
  }
  {
    assume a: "\<exists>d\<in>set (Domains req). TrimSpace d \<noteq> []"
    then have ne: "?clean \<noteq> []" by (auto simp add: filter_empty_conv)
    from a have dne: "Domains req \<noteq> []" by auto
    let ?req = "req\<lparr> reqID := newID, Domains := ?clean \<rparr>"
    let ?id = "if newID = [] then newID' else newID"
    from StartScan_ok [of ?req "orchestrator h" newID'] ne
    obtain chunks where st: "StartScan (orchestrator h) ?req newID' =
           Inr (None,
                (orchestrator h)\<lparr>activeScans := (activeScans (orchestrator h))
                  (?id \<mapsto>
                    \<lparr> scanID = ?id, scanProgress = 0,
                      ActiveDroplets = [], Results = [],
                      scanTotalDomains = int (length ?clean), ScannedDomains = 0,
                      scanStatus = ''starting'' \<rparr>)\<rparr>,
                ?req\<lparr>reqID := ?id\<rparr>,
                enumerate 0 chunks)"
      and cne: "chunks \<noteq> []" and cat: "concat chunks = ?clean"
      by auto
    have sn: "map snd (enumerate 0 chunks) = chunks" by (simp add: enumerate_eq_zip)
    show "\<exists>jobID h' tasks.
         Handler_StartScan TrimSpace h (Inr req) newID newID'
           = Inr (JSON 200 [(''scan_id'', JString jobID),
                            (''message'', JString ''Scan started successfully''),
                            (''domains_count'', JInt (int (length ?clean)))],
                  h', tasks)
         \<and> jobID = (if newID = [] then newID' else newID)
         \<and> activeScans (orchestrator h') jobID \<noteq> None
         \<and> wsManager h' = wsManager h
         \<and> tasks \<noteq> []
         \<and> concat (map snd tasks) = ?clean"
      using dne ne cne cat sn
      by (intro exI [of _ ?id] exI [of _ "enumerate 0 chunks"]
          exI [of _ "h\<lparr>orchestrator := (orchestrator h)\<lparr>activeScans := (activeScans (orchestrator h))
                  (?id \<mapsto>
                    \<lparr> scanID = ?id, scanProgress = 0,
                      ActiveDroplets = [], Results = [],
                      scanTotalDomains = int (length ?clean), ScannedDomains = 0,
                      scanStatus = ''starting'' \<rparr>)\<rparr>\<rparr>"])
        (simp add: Handler_StartScan_def Let_def cl st enumerate_eq_zip)
  }
qed

theorem C6_submission_validation_witness:
  "TrimSpace_ascii ''  '' = [] \<and> TrimSpace_ascii [] = []
   \<and> Handler_StartScan TrimSpace_ascii example_handler (Inr example_blank_request) ''scan-0001'' []
       = Inr (JSON 400 [(''error'', JString ''No valid domains provided'')], example_handler, [])
   \<and> TrimSpace_ascii '' a.com '' \<noteq> []
   \<and> (\<exists>h' tasks.
        Handler_StartScan TrimSpace_ascii example_handler (Inr example_submission) ''scan-0001'' []
          = Inr (JSON 200 [(''scan_id'', JString ''scan-0001''),
                           (''message'', JString ''Scan started successfully''),
                           (''domains_count'', JInt 2)], h', tasks)
        \<and> activeScans (orchestrator h') ''scan-0001'' \<noteq> None
        \<and> concat (map snd tasks) = [''a.com'', ''b.com''])"
proof -
  have blank: "\<forall>d\<in>set (Domains example_blank_request). TrimSpace_ascii d = []"
    by (simp add: example_blank_request_def example_trim)
  have some: "\<exists>d\<in>set (Domains example_submission). TrimSpace_ascii d \<noteq> []"
    by (simp add: example_submission_def example_trim)
  have clean: "filter (\<lambda>d. d \<noteq> []) (map TrimSpace_ascii (Domains example_submission))
      = [''a.com'', ''b.com'']"
    by (simp add: example_submission_def example_trim)
  note c = C6_submission_validation [of _ TrimSpace_ascii example_handler "''scan-0001''" "[]"]
  from c [of example_blank_request] blank
  obtain msg where m: "Handler_StartScan TrimSpace_ascii example_handler (Inr example_blank_request)
      ''scan-0001'' [] = Inr (JSON 400 [(''error'', JString msg)], example_handler, [])"
    by blast
  have "Handler_StartScan TrimSpace_ascii example_handler (Inr example_blank_request) ''scan-0001'' []
       = Inr (JSON 400 [(''error'', JString ''No valid domains provided'')], example_handler, [])"
    by (simp add: Handler_StartScan_def example_blank_request_def example_trim Let_def)
  with m have a: "Handler_StartScan TrimSpace_ascii example_handler (Inr example_blank_request)
      ''scan-0001'' []
       = Inr (JSON 400 [(''error'', JString ''No valid domains provided'')], example_handler, [])"
    by simp
  from c [of example_submission] some
  obtain jobID h' tasks where
    r: "Handler_StartScan TrimSpace_ascii example_handler (Inr example_submission) ''scan-0001'' []
           = Inr (JSON 200 [(''scan_id'', JString jobID),
                            (''message'', JString ''Scan started successfully''),
                            (''domains_count'',
                               JInt (int (length (filter (\<lambda>d. d \<noteq> [])
                                 (map TrimSpace_ascii (Domains example_submission))))))],
                  h', tasks)"
    and j: "jobID = (if ''scan-0001'' = [] then [] else ''scan-0001'')"
    and reg: "activeScans (orchestrator h') jobID \<noteq> None"
    and t: "concat (map snd tasks) = filter (\<lambda>d. d \<noteq> []) (map TrimSpace_ascii (Domains example_submission))"
    by blast
  from j have j': "jobID = ''scan-0001''" by simp
  have b: "\<exists>h' tasks.
        Handler_StartScan TrimSpace_ascii example_handler (Inr example_submission) ''scan-0001'' []
          = Inr (JSON 200 [(''scan_id'', JString ''scan-0001''),
                           (''message'', JString ''Scan started successfully''),
                           (''domains_count'', JInt 2)], h', tasks)
        \<and> activeScans (orchestrator h') ''scan-0001'' \<noteq> None
        \<and> concat (map snd tasks) = [''a.com'', ''b.com'']"
    using r reg t unfolding clean j'
    by (intro exI [of _ h'] exI [of _ tasks]) simp
  show ?thesis
    using a b by (simp add: example_trim)
qed

text \<open>
  Claim C7, as stated, fails: when the last worker of a scan reports completion, the message
  published to the scan's subscribers has type \<open>scan_complete\<close>, not \<open>job_complete\<close>.
\<close>

theorem C7_event_type_counterexample:
  "map_sum id (\<lambda>(resp, h', cleanups). (resp, map wsType (chBuf (chans (wsManager h') 0)), cleanups))
     (CompleteWorker (\<lambda>x. x) example_feed_handler ''scan-0001'' ''scan-000-worker-1'')
   = Inr (JSON 200 [(''status'', JString ''completed'')], [''scan_complete''], [''scan-0001''])
   \<and> ''scan_complete'' \<noteq> ''job_complete''"
  unfolding example_feed_complete by simp

text \<open>
  Claim C7, amended. The live feed carries events of type \<open>status_update\<close>,
  \<open>new_result\<close> and \<open>scan_complete\<close>. For a scan whose broadcast channel is open and
  not full: when \<open>CompleteWorker\<close> is called for a registered scan all of whose other
  workers are at 100 percent (worker IDs being distinct), the message appended to the channel
  has type \<open>scan_complete\<close> and carries the scan's status, now \<open>completed\<close>, and the
  clean-up of the scan is scheduled; \<open>ReceiveResults\<close> appends a \<open>new_result\<close> message
  carrying the result; \<open>WorkerHeartbeat\<close> on a registered scan appends a
  \<open>status_update\<close> message carrying the scan's status.
\<close>

theorem C7_live_feed_event_types:
  assumes "broadcast (wsManager h) scan_id = Some r"
    and "\<not> chClosed (chans (wsManager h) r)"
    and "length (chBuf (chans (wsManager h) r)) < 100"
  shows "(\<forall>scan. activeScans (orchestrator h) scan_id = Some scan
            \<and> distinct (map wID (ActiveDroplets scan))
            \<and> (\<forall>w\<in>set (ActiveDroplets scan). wID w \<noteq> workerID \<longrightarrow> \<not> wProgress w < 100) \<longrightarrow>
          (\<exists>resp h' status.
             CompleteWorker rnd h scan_id workerID = Inr (resp, h', [scan_id])
             \<and> chBuf (chans (wsManager h') r)
                 = chBuf (chans (wsManager h) r)
                   @ [\<lparr> wsType = ''scan_complete'', wsData = StatusData status \<rparr>]
             \<and> activeScans (orchestrator h') scan_id = Some status
             \<and> scanStatus status = ''completed''))
     \<and> (\<exists>resp h'.
           ReceiveResults h scan_id workerID (Inr res) now = Inr (resp, h')
           \<and> chBuf (chans (wsManager h') r)
               = chBuf (chans (wsManager h) r)
                 @ [\<lparr> wsType = ''new_result'',
                      wsData = ResultData (res\<lparr> resTimestamp := now, resWorkerID := workerID \<rparr>) \<rparr>])
     \<and> (\<forall>scan. activeScans (orchestrator h) scan_id = Some scan \<longrightarrow>
          (\<exists>resp h' status.
             WorkerHeartbeat rnd h scan_id workerID (Inr heartbeat) = Inr (resp, h')
             \<and> chBuf (chans (wsManager h') r)
                 = chBuf (chans (wsManager h) r)
                   @ [\<lparr> wsType = ''status_update'', wsData = StatusData status \<rparr>]
             \<and> activeScans (orchestrator h') scan_id = Some status))"
proof (intro conjI allI impI)
  fix scan
  assume a: "activeScans (orchestrator h) scan_id = Some scan
            \<and> distinct (map wID (ActiveDroplets scan))
            \<and> (\<forall>w\<in>set (ActiveDroplets scan). wID w \<noteq> workerID \<longrightarrow> \<not> wProgress w < 100)"
  let ?orch = "UpdateWorkerProgress rnd (orchestrator h) scan_id workerID 100 ''completed''"
  from a UpdateWorkerProgress_Some' [of "orchestrator h" scan_id scan rnd workerID 100 "''completed''"]
  obtain scan' where s: "activeScans ?orch scan_id = Some scan'"
    and w: "ActiveDroplets scan' = update_worker rnd workerID 100 ''completed'' (ActiveDroplets scan)"
    by blast
  have ac: "all_complete (ActiveDroplets scan')"
    unfolding w using a by (intro update_worker_all_complete) simp_all
  let ?status = "scan'\<lparr> scanStatus := ''completed'' \<rparr>"
  let ?msg = "\<lparr> wsType = ''scan_complete'', wsData = StatusData ?status \<rparr>"
  let ?h1 = "h\<lparr> orchestrator := ?orch\<lparr> activeScans := (activeScans ?orch)(scan_id \<mapsto> ?status) \<rparr> \<rparr>"
  have b: "BroadcastToScan (wsManager ?h1) scan_id ?msg =
     Inr ((wsManager h)\<lparr> chans := (chans (wsManager h))(r := (chans (wsManager h) r)
            \<lparr> chBuf := chBuf (chans (wsManager h) r) @ [?msg] \<rparr>) \<rparr>)"
    using BroadcastToScan_enqueue [OF assms, of ?msg] by simp
  let ?h2 = "?h1\<lparr> wsManager := (wsManager h)\<lparr> chans := (chans (wsManager h))(r := (chans (wsManager h) r)
            \<lparr> chBuf := chBuf (chans (wsManager h) r) @ [?msg] \<rparr>) \<rparr> \<rparr>"
  have cw: "CompleteWorker rnd h scan_id workerID =
     Inr (JSON 200 [(''status'', JString ''completed'')], ?h2, [scan_id])"
    using b by (simp add: CompleteWorker_def Let_def GetScanStatus_def s ac)
  have c1: "chBuf (chans (wsManager ?h2) r) = chBuf (chans (wsManager h) r) @ [?msg]" by simp
  have c2: "activeScans (orchestrator ?h2) scan_id = Some ?status" by simp
  have c3: "scanStatus ?status = ''completed''" by simp
  show "\<exists>resp h' status.
             CompleteWorker rnd h scan_id workerID = Inr (resp, h', [scan_id])
             \<and> chBuf (chans (wsManager h') r)
                 = chBuf (chans (wsManager h) r)
                   @ [\<lparr> wsType = ''scan_complete'', wsData = StatusData status \<rparr>]
             \<and> activeScans (orchestrator h') scan_id = Some status
             \<and> scanStatus status = ''completed''"
    by (rule exI [of _ "JSON 200 [(''status'', JString ''completed'')]"], rule exI [of _ ?h2],
        rule exI [of _ ?status]) (intro conjI cw c1 c2 c3)
next
  let ?res = "res\<lparr> resTimestamp := now, resWorkerID := workerID \<rparr>"
  let ?msg = "\<lparr> wsType = ''new_result'', wsData = ResultData ?res \<rparr>"
  let ?h2 = "h\<lparr> orchestrator := AddResult (orchestrator h) scan_id ?res,
             wsManager := (wsManager h)\<lparr> chans := (chans (wsManager h))(r := (chans (wsManager h) r)
               \<lparr> chBuf := chBuf (chans (wsManager h) r) @ [?msg] \<rparr>) \<rparr> \<rparr>"
  have rr: "ReceiveResults h scan_id workerID (Inr res) now =
     Inr (JSON 200 [(''status'', JString ''received'')], ?h2)"
    by (simp add: ReceiveResults_def Let_def BroadcastToScan_enqueue [OF assms])
  have c1: "chBuf (chans (wsManager ?h2) r) = chBuf (chans (wsManager h) r) @ [?msg]" by simp
  show "\<exists>resp h'.
           ReceiveResults h scan_id workerID (Inr res) now = Inr (resp, h')
           \<and> chBuf (chans (wsManager h') r)
               = chBuf (chans (wsManager h) r) @ [?msg]"
    by (rule exI [of _ "JSON 200 [(''status'', JString ''received'')]"], rule exI [of _ ?h2])
      (intro conjI rr c1)
next
  fix scan
  assume a: "activeScans (orchestrator h) scan_id = Some scan"
  let ?orch = "UpdateWorkerProgress rnd (orchestrator h) scan_id workerID
                 (hbProgress heartbeat) (hbCurrentDomain heartbeat)"
  from a UpdateWorkerProgress_Some' [of "orchestrator h" scan_id scan rnd workerID
      "hbProgress heartbeat" "hbCurrentDomain heartbeat"]
  obtain status where s: "activeScans ?orch scan_id = Some status" by blast
  let ?msg = "\<lparr> wsType = ''status_update'', wsData = StatusData status \<rparr>"
  let ?h2 = "h\<lparr> orchestrator := ?orch,
             wsManager := (wsManager h)\<lparr> chans := (chans (wsManager h))(r := (chans (wsManager h) r)
               \<lparr> chBuf := chBuf (chans (wsManager h) r) @ [?msg] \<rparr>) \<rparr> \<rparr>"
  have wh: "WorkerHeartbeat rnd h scan_id workerID (Inr heartbeat) =
     Inr (JSON 200 [(''status'', JString ''updated'')], ?h2)"
    by (simp add: WorkerHeartbeat_def Let_def GetScanStatus_def s BroadcastToScan_enqueue [OF assms])
  have c1: "chBuf (chans (wsManager ?h2) r) = chBuf (chans (wsManager h) r) @ [?msg]" by simp
  have c2: "activeScans (orchestrator ?h2) scan_id = Some status" by (simp add: s)
  show "\<exists>resp h' status.
             WorkerHeartbeat rnd h scan_id workerID (Inr heartbeat) = Inr (resp, h')
             \<and> chBuf (chans (wsManager h') r)
                 = chBuf (chans (wsManager h) r)
                   @ [\<lparr> wsType = ''status_update'', wsData = StatusData status \<rparr>]
             \<and> activeScans (orchestrator h') scan_id = Some status"
    by (rule exI [of _ "JSON 200 [(''status'', JString ''updated'')]"], rule exI [of _ ?h2],
        rule exI [of _ status]) (intro conjI wh c1 c2)
qed

theorem C7_live_feed_event_types_witness:
  "broadcast (wsManager example_feed_handler) ''scan-0001'' = Some 0
   \<and> \<not> chClosed (chans (wsManager example_feed_handler) 0)
   \<and> length (chBuf (chans (wsManager example_feed_handler) 0)) < 100
   \<and> activeScans (orchestrator example_feed_handler) ''scan-0001'' = Some example_feed_scan
   \<and> distinct (map wID (ActiveDroplets example_feed_scan))
   \<and> (\<exists>resp h' status.
         CompleteWorker (\<lambda>x. x) example_feed_handler ''scan-0001'' ''scan-000-worker-1''
           = Inr (resp, h', [''scan-0001''])
         \<and> chBuf (chans (wsManager h') 0) = [\<lparr> wsType = ''scan_complete'', wsData = StatusData status \<rparr>]
         \<and> scanStatus status = ''completed'')
   \<and> (\<exists>resp h'.
         ReceiveResults example_feed_handler ''scan-0001'' ''scan-000-worker-1'' (Inr example_result) 20
           = Inr (resp, h')
         \<and> map wsType (chBuf (chans (wsManager h') 0)) = [''new_result''])
   \<and> (\<exists>resp h'.
         WorkerHeartbeat (\<lambda>x. x) example_feed_handler ''scan-0001'' ''scan-000-worker-1''
             (Inr example_heartbeat)
           = Inr (resp, h')
         \<and> map wsType (chBuf (chans (wsManager h') 0)) = [''status_update''])"
proof -
  have b: "broadcast (wsManager example_feed_handler) ''scan-0001'' = Some 0"
    by (simp add: example_feed_wsm)
  have o: "\<not> chClosed (chans (wsManager example_feed_handler) 0)"
    by (simp add: example_feed_wsm)
  have l: "length (chBuf (chans (wsManager example_feed_handler) 0)) < 100"
    by (simp add: example_feed_wsm)
  have e: "chBuf (chans (wsManager example_feed_handler) 0) = []"
    by (simp add: example_feed_wsm)
  have s: "activeScans (orchestrator example_feed_handler) ''scan-0001'' = Some example_feed_scan"
    by (simp add: example_feed_orch)
  have d: "distinct (map wID (ActiveDroplets example_feed_scan))"
    by (simp add: example_feed_scan_def example_feed_workers_def)
  have others: "\<forall>w\<in>set (ActiveDroplets example_feed_scan).
      wID w \<noteq> ''scan-000-worker-1'' \<longrightarrow> \<not> wProgress w < 100"
    by (simp add: example_feed_scan_def example_feed_workers_def)
  note c = C7_live_feed_event_types [OF b o l, of "''scan-000-worker-1''" "\<lambda>x. x" example_result 20
      example_heartbeat, unfolded e append_Nil]
  from c s d others
  have c1: "\<exists>resp h' status.
         CompleteWorker (\<lambda>x. x) example_feed_handler ''scan-0001'' ''scan-000-worker-1''
           = Inr (resp, h', [''scan-0001''])
         \<and> chBuf (chans (wsManager h') 0) = [\<lparr> wsType = ''scan_complete'', wsData = StatusData status \<rparr>]
         \<and> activeScans (orchestrator h') ''scan-0001'' = Some status
         \<and> scanStatus status = ''completed''"
    by blast
  from c obtain resp2 h2 where
    c2: "ReceiveResults example_feed_handler ''scan-0001'' ''scan-000-worker-1'' (Inr example_result) 20
           = Inr (resp2, h2)"
      "chBuf (chans (wsManager h2) 0) = [\<lparr> wsType = ''new_result'',
          wsData = ResultData (example_result\<lparr> resTimestamp := 20, resWorkerID := ''scan-000-worker-1'' \<rparr>) \<rparr>]"
    by blast
  from c s obtain resp3 h3 status3 where
    c3: "WorkerHeartbeat (\<lambda>x. x) example_feed_handler ''scan-0001'' ''scan-000-worker-1''
             (Inr example_heartbeat) = Inr (resp3, h3)"
      "chBuf (chans (wsManager h3) 0) = [\<lparr> wsType = ''status_update'', wsData = StatusData status3 \<rparr>]"
    by blast
  show ?thesis
  proof (intro conjI)
    show "\<exists>resp h' status.
         CompleteWorker (\<lambda>x. x) example_feed_handler ''scan-0001'' ''scan-000-worker-1''
           = Inr (resp, h', [''scan-0001''])
         \<and> chBuf (chans (wsManager h') 0) = [\<lparr> wsType = ''scan_complete'', wsData = StatusData status \<rparr>]
         \<and> scanStatus status = ''completed''"
      using c1 by blast
    show "\<exists>resp h'.
         ReceiveResults example_feed_handler ''scan-0001'' ''scan-000-worker-1'' (Inr example_result) 20
           = Inr (resp, h')
         \<and> map wsType (chBuf (chans (wsManager h') 0)) = [''new_result'']"
      by (rule exI [of _ resp2], rule exI [of _ h2]) (simp add: c2)
    show "\<exists>resp h'.
         WorkerHeartbeat (\<lambda>x. x) example_feed_handler ''scan-0001'' ''scan-000-worker-1''
             (Inr example_heartbeat)
           = Inr (resp, h')
         \<and> map wsType (chBuf (chans (wsManager h') 0)) = [''status_update'']"
      by (rule exI [of _ resp3], rule exI [of _ h3]) (simp add: c3)
  qed (rule b o l s d)+
qed

end
